theory Spec2Isabelle
  imports
    Complex_Main
    "HOL-Library.Sublist"
    "HOL-Library.AList"
    "HOL-Library.Char_ord"
    "HOL-Library.List_Lexorder"
    "HOL-Library.Multiset"
begin

section \<open>The knowledge base of the equity research tool\<close>

text \<open>
  A shallow embedding of \<^verbatim>\<open>src/knowledge_base.py\<close>: the class \<^verbatim>\<open>KnowledgeBase\<close> keeps three
  JSON files (notes, articles, research), each a list of dictionaries, and every operation
  loads a whole file, works on the list and writes the whole file back.

  What the program takes from its environment is an explicit argument of the model:
  the identifier \<^verbatim>\<open>uuid.uuid4()\<close> returns, each reading of the clock (a search reads it
  once for every match), and the library function \<^verbatim>\<open>datetime.fromisoformat\<close>. The file
  system is the state.
\<close>

subsection \<open>JSON values and dictionaries\<close>

text \<open>
  What \<^verbatim>\<open>json.load\<close> returns and \<^verbatim>\<open>json.dump\<close> writes. A dictionary is an association
  list in insertion order, as Python keeps it; a number is a real (the scores are sums of
  halves and at most one fifth, so each is one correctly rounded float and the order of
  two scores is the order of the reals).
\<close>

datatype json =
    JNull
  | JBool bool
  | JNum real
  | JStr string
  | JArr "json list"
  | JObj "(string \<times> json) list"

type_synonym item = "(string \<times> json) list"

datatype error = AttributeError | TypeError | KeyError | ValueError | OSError

definition bind_err :: "'e + 'a \<Rightarrow> ('a \<Rightarrow> 'e + 'b) \<Rightarrow> 'e + 'b" where
  "bind_err m f = (case m of Inl e \<Rightarrow> Inl e | Inr x \<Rightarrow> f x)"

subsection \<open>The string methods of Python the program calls\<close>

text \<open>
  \<^verbatim>\<open>str.lower\<close>, \<^verbatim>\<open>str.upper\<close>, \<^verbatim>\<open>str.split()\<close> and the substring test \<^verbatim>\<open>a in b\<close>, on
  ASCII text: a \<^typ>\<open>char\<close> is a byte, and only the letters A to Z change case.
\<close>

definition upper_letters :: string where
  "upper_letters = ''ABCDEFGHIJKLMNOPQRSTUVWXYZ''"

definition lower_letters :: string where
  "lower_letters = ''abcdefghijklmnopqrstuvwxyz''"

definition lower_char :: "char \<Rightarrow> char" where
  "lower_char c = (case map_of (zip upper_letters lower_letters) c of None \<Rightarrow> c | Some d \<Rightarrow> d)"

definition upper_char :: "char \<Rightarrow> char" where
  "upper_char c = (case map_of (zip lower_letters upper_letters) c of None \<Rightarrow> c | Some d \<Rightarrow> d)"

definition lower :: "string \<Rightarrow> string" where
  "lower s = map lower_char s"

definition upper :: "string \<Rightarrow> string" where
  "upper s = map upper_char s"

text \<open>The ASCII characters \<^verbatim>\<open>str.isspace\<close> accepts: tab to carriage return, the four
  separators 28 to 31, and the space.\<close>

definition is_space :: "char \<Rightarrow> bool" where
  "is_space c = (of_char c \<in> {9, 10, 11, 12, 13, 28, 29, 30, 31, 32 :: nat})"

text \<open>\<^verbatim>\<open>s.split()\<close>: the maximal runs of characters that are not whitespace. The first
  argument is the word read so far.\<close>

fun split_from :: "string \<Rightarrow> string \<Rightarrow> string list" where
  "split_from w [] = (if w = [] then [] else [w])"
| "split_from w (c # cs) =
     (if is_space c then (if w = [] then [] else [w]) @ split_from [] cs
      else split_from (w @ [c]) cs)"

definition split :: "string \<Rightarrow> string list" where
  "split s = split_from [] s"

text \<open>\<^verbatim>\<open>sub in s\<close> on strings: \<open>sub\<close> starts at some position of \<open>s\<close>.\<close>

fun str_in :: "string \<Rightarrow> string \<Rightarrow> bool" where
  "str_in sub [] = (sub = [])"
| "str_in sub (c # cs) = (prefix sub (c # cs) \<or> str_in sub cs)"

subsection \<open>The files\<close>

text \<open>
  The three paths \<^verbatim>\<open>__init__\<close> fixes. A file holds a list of dictionaries, the only shape
  the program writes; \<open>stored = None\<close> stands for a file that \<^verbatim>\<open>_load_data\<close> cannot read
  (missing, unreadable, or not JSON). \<^verbatim>\<open>_init_storage\<close> writes the empty list to each file
  that does not exist; the properties below hold from every state of the three files.

  \<open>writable\<close>: a write to the file completes. When it does not, \<^verbatim>\<open>_save_data\<close> raises, and
  \<open>tears\<close> tells where. \<^verbatim>\<open>open(file_path, 'w')\<close> truncates the file before \<^verbatim>\<open>json.dump\<close> writes:
  with \<open>tears\<close> the open succeeds and the write fails, leaving a truncated file that no
  longer loads; without it the open is refused and the file keeps what it holds.
\<close>

datatype path = notes_file | articles_file | research_file

record backing_file =
  stored :: "item list option"
  writable :: bool
  tears :: bool

type_synonym filesystem = "path \<Rightarrow> backing_file"

definition load_data :: "filesystem \<Rightarrow> path \<Rightarrow> item list" where
  "load_data fs file_path = (case stored (fs file_path) of None \<Rightarrow> [] | Some data \<Rightarrow> data)"

text \<open>\<^verbatim>\<open>_save_data\<close> raises again what the write raised: \<open>Inl\<close> carries the exception and the
  files as the failed write left them.\<close>

definition save_data :: "filesystem \<Rightarrow> path \<Rightarrow> item list \<Rightarrow> error \<times> filesystem + filesystem" where
  "save_data fs file_path data =
     (if writable (fs file_path)
      then Inr (fs(file_path := (fs file_path)\<lparr>stored := Some data\<rparr>))
      else if tears (fs file_path)
      then Inl (OSError, fs(file_path := (fs file_path)\<lparr>stored := None\<rparr>))
      else Inl (OSError, fs))"

text \<open>The \<^verbatim>\<open>if/elif\<close> chain at the head of \<^verbatim>\<open>update_item\<close> and \<^verbatim>\<open>delete_item\<close>.\<close>

definition collection_file :: "string \<Rightarrow> path option" where
  "collection_file item_type =
     (if item_type = ''notes'' then Some notes_file
      else if item_type = ''articles'' then Some articles_file
      else if item_type = ''research'' then Some research_file
      else None)"

subsection \<open>Adding\<close>

text \<open>\<^verbatim>\<open>tags or []\<close>, written as JSON.\<close>

definition or_empty :: "string list option \<Rightarrow> json" where
  "or_empty xs = (case xs of None \<Rightarrow> JArr [] | Some ys \<Rightarrow> JArr (map JStr ys))"

definition opt_str :: "string option \<Rightarrow> json" where
  "opt_str s = (case s of None \<Rightarrow> JNull | Some t \<Rightarrow> JStr t)"

text \<open>
  Each \<^verbatim>\<open>add_*\<close> reads the clock twice (\<open>created\<close>, then \<open>updated\<close>, as ISO strings),
  appends the new dictionary to what \<^verbatim>\<open>_load_data\<close> returns and saves. An exception is
  raised again: the result is \<open>Inl\<close>, with the files as the failed write left them.
\<close>

definition add_note ::
  "filesystem \<Rightarrow> string \<Rightarrow> string \<Rightarrow> string \<Rightarrow> string \<Rightarrow> string \<Rightarrow>
   string list option \<Rightarrow> string list option \<Rightarrow> error \<times> filesystem + string \<times> filesystem" where
  "add_note fs note_id created updated title content tags related_tickers =
     (let note =
        [(''id'', JStr note_id), (''type'', JStr ''note''), (''title'', JStr title),
         (''content'', JStr content), (''tags'', or_empty tags),
         (''related_tickers'', or_empty related_tickers),
         (''created_at'', JStr created), (''updated_at'', JStr updated)];
        notes = load_data fs notes_file
      in bind_err (save_data fs notes_file (notes @ [note])) (\<lambda>fs'. Inr (note_id, fs')))"

definition add_article ::
  "filesystem \<Rightarrow> string \<Rightarrow> string \<Rightarrow> string \<Rightarrow> string \<Rightarrow> string \<Rightarrow> string option \<Rightarrow>
   string option \<Rightarrow> string list option \<Rightarrow> string list option \<Rightarrow> error \<times> filesystem + string \<times> filesystem" where
  "add_article fs article_id created updated title url summary content tags related_tickers =
     (let article =
        [(''id'', JStr article_id), (''type'', JStr ''article''), (''title'', JStr title),
         (''url'', JStr url), (''summary'', opt_str summary), (''content'', opt_str content),
         (''tags'', or_empty tags), (''related_tickers'', or_empty related_tickers),
         (''created_at'', JStr created), (''updated_at'', JStr updated)];
        articles = load_data fs articles_file
      in bind_err (save_data fs articles_file (articles @ [article]))
           (\<lambda>fs'. Inr (article_id, fs')))"

definition add_research ::
  "filesystem \<Rightarrow> string \<Rightarrow> string \<Rightarrow> string \<Rightarrow> string \<Rightarrow> string \<Rightarrow> string option \<Rightarrow>
   string list option \<Rightarrow> string list option \<Rightarrow> error \<times> filesystem + string \<times> filesystem" where
  "add_research fs research_id created updated title content source tags related_tickers =
     (let research =
        [(''id'', JStr research_id), (''type'', JStr ''research''), (''title'', JStr title),
         (''content'', JStr content), (''source'', opt_str source), (''tags'', or_empty tags),
         (''related_tickers'', or_empty related_tickers),
         (''created_at'', JStr created), (''updated_at'', JStr updated)];
        research_items = load_data fs research_file
      in bind_err (save_data fs research_file (research_items @ [research]))
           (\<lambda>fs'. Inr (research_id, fs')))"

subsection \<open>Updating and deleting\<close>

text \<open>\<^verbatim>\<open>for key, value in updates.items(): if key in item: item[key] = value\<close>\<close>

definition apply_updates :: "(string \<times> json) list \<Rightarrow> item \<Rightarrow> item" where
  "apply_updates updates item =
     fold (\<lambda>(key, val) it. if map_of it key \<noteq> None then AList.update key val it else it)
       updates item"

text \<open>
  The loop of \<^verbatim>\<open>update_item\<close> over the loaded list: \<^verbatim>\<open>item['id']\<close> raises \<^verbatim>\<open>KeyError\<close> on a
  dictionary with no \<^verbatim>\<open>id\<close>; the first dictionary whose \<^verbatim>\<open>id\<close> equals \<open>item_id\<close> is
  updated in place and the loop ends. \<open>Inr None\<close>: the loop ran to its end.
\<close>

fun update_loop :: "string \<Rightarrow> (string \<times> json) list \<Rightarrow> string \<Rightarrow> item list \<Rightarrow> error + item list option" where
  "update_loop item_id updates now [] = Inr None"
| "update_loop item_id updates now (item # rest) =
     (case map_of item ''id'' of
        None \<Rightarrow> Inl KeyError
      | Some v \<Rightarrow>
          if v = JStr item_id
          then Inr (Some (AList.update ''updated_at'' (JStr now) (apply_updates updates item) # rest))
          else bind_err (update_loop item_id updates now rest)
                 (\<lambda>r. Inr (map_option (\<lambda>items. item # items) r)))"

text \<open>The outer \<^verbatim>\<open>try\<close> of \<^verbatim>\<open>update_item\<close> turns every exception into \<^verbatim>\<open>False\<close>; what a failed
  write did to the file stays.\<close>

definition update_item ::
  "filesystem \<Rightarrow> string \<Rightarrow> string \<Rightarrow> (string \<times> json) list \<Rightarrow> string \<Rightarrow> bool \<times> filesystem" where
  "update_item fs now item_id updates item_type =
     (case collection_file item_type of
        None \<Rightarrow> (False, fs)
      | Some file_path \<Rightarrow>
          (case update_loop item_id updates now (load_data fs file_path) of
             Inl e \<Rightarrow> (False, fs)
           | Inr None \<Rightarrow> (False, fs)
           | Inr (Some items) \<Rightarrow>
               (case save_data fs file_path items of
                  Inl (e, fs') \<Rightarrow> (False, fs')
                | Inr fs' \<Rightarrow> (True, fs'))))"

text \<open>\<^verbatim>\<open>[item for item in items if item['id'] != item_id]\<close>\<close>

fun without_id :: "string \<Rightarrow> item list \<Rightarrow> error + item list" where
  "without_id item_id [] = Inr []"
| "without_id item_id (item # rest) =
     (case map_of item ''id'' of
        None \<Rightarrow> Inl KeyError
      | Some v \<Rightarrow>
          bind_err (without_id item_id rest)
            (\<lambda>kept. Inr (if v \<noteq> JStr item_id then item # kept else kept)))"

definition delete_item :: "filesystem \<Rightarrow> string \<Rightarrow> string \<Rightarrow> bool \<times> filesystem" where
  "delete_item fs item_id item_type =
     (case collection_file item_type of
        None \<Rightarrow> (False, fs)
      | Some file_path \<Rightarrow>
          (let items = load_data fs file_path; original_count = length items in
           case without_id item_id items of
             Inl e \<Rightarrow> (False, fs)
           | Inr kept \<Rightarrow>
               if length kept < original_count
               then (case save_data fs file_path kept of
                       Inl (e, fs') \<Rightarrow> (False, fs')
                     | Inr fs' \<Rightarrow> (True, fs'))
               else (False, fs)))"

subsection \<open>Reading\<close>

text \<open>One loop of \<^verbatim>\<open>get_item\<close>: the first dictionary whose \<^verbatim>\<open>id\<close> is \<open>item_id\<close>.\<close>

fun first_with_id :: "string \<Rightarrow> item list \<Rightarrow> error + item option" where
  "first_with_id item_id [] = Inr None"
| "first_with_id item_id (item # rest) =
     (case map_of item ''id'' of
        None \<Rightarrow> Inl KeyError
      | Some v \<Rightarrow> if v = JStr item_id then Inr (Some item) else first_with_id item_id rest)"

text \<open>One of the three \<^verbatim>\<open>if\<close> blocks of \<^verbatim>\<open>get_item\<close>; \<open>Inr None\<close> falls through to the
  next block.\<close>

definition get_from ::
  "filesystem \<Rightarrow> string \<Rightarrow> string option \<Rightarrow> string \<Rightarrow> path \<Rightarrow> error + item option" where
  "get_from fs item_id item_type name file_path =
     (if item_type = Some name \<or> item_type = None
      then first_with_id item_id (load_data fs file_path)
      else Inr None)"

definition get_item :: "filesystem \<Rightarrow> string \<Rightarrow> string option \<Rightarrow> item option" where
  "get_item fs item_id item_type =
     (case
        bind_err (get_from fs item_id item_type ''notes'' notes_file) (\<lambda>found.
          case found of
            Some note \<Rightarrow> Inr (Some note)
          | None \<Rightarrow>
              bind_err (get_from fs item_id item_type ''articles'' articles_file) (\<lambda>found.
                case found of
                  Some article \<Rightarrow> Inr (Some article)
                | None \<Rightarrow> get_from fs item_id item_type ''research'' research_file))
      of Inl e \<Rightarrow> None | Inr r \<Rightarrow> r)"

definition get_all_items :: "filesystem \<Rightarrow> string \<Rightarrow> item list" where
  "get_all_items fs item_type =
     (if item_type = ''notes'' then load_data fs notes_file
      else if item_type = ''articles'' then load_data fs articles_file
      else if item_type = ''research'' then load_data fs research_file
      else if item_type = ''all''
        then load_data fs notes_file @ load_data fs articles_file @ load_data fs research_file
      else [])"

subsection \<open>Searching\<close>

text \<open>\<^verbatim>\<open>item.get(key, '').lower()\<close>: a missing key gives the empty string; a value that is
  not a string (also \<^verbatim>\<open>None\<close>, which \<^verbatim>\<open>add_article\<close> stores for an omitted summary or
  content) has no method \<^verbatim>\<open>lower\<close>.\<close>

definition get_lower :: "item \<Rightarrow> string \<Rightarrow> error + string" where
  "get_lower item key =
     (case map_of item key of
        None \<Rightarrow> Inr (lower [])
      | Some (JStr s) \<Rightarrow> Inr (lower s)
      | Some _ \<Rightarrow> Inl AttributeError)"

text \<open>\<^verbatim>\<open>[f(t) for t in item.get(key, [])]\<close> with \<open>f\<close> a string method: iterating a list gives
  its elements, a string its characters, a dictionary its keys; nothing else iterates,
  and an element that is not a string has no such method.\<close>

fun each_str :: "(string \<Rightarrow> string) \<Rightarrow> json list \<Rightarrow> error + string list" where
  "each_str f [] = Inr []"
| "each_str f (JStr s # rest) = bind_err (each_str f rest) (\<lambda>ys. Inr (f s # ys))"
| "each_str f (v # rest) = Inl AttributeError"

definition get_each :: "(string \<Rightarrow> string) \<Rightarrow> item \<Rightarrow> string \<Rightarrow> error + string list" where
  "get_each f item key =
     (case map_of item key of
        None \<Rightarrow> Inr []
      | Some (JArr xs) \<Rightarrow> each_str f xs
      | Some (JStr s) \<Rightarrow> Inr (map (\<lambda>c. f [c]) s)
      | Some (JObj kvs) \<Rightarrow> Inr (map (\<lambda>kv. f (fst kv)) kvs)
      | Some _ \<Rightarrow> Inl TypeError)"

text \<open>\<^verbatim>\<open>_matches_search\<close>. \<^verbatim>\<open>if ticker:\<close> and \<^verbatim>\<open>if tags:\<close> skip \<^verbatim>\<open>None\<close> and the empty value.\<close>

definition matches_search ::
  "item \<Rightarrow> string \<Rightarrow> string option \<Rightarrow> string list option \<Rightarrow> error + bool" where
  "matches_search item query ticker tags =
     (let query_lower = lower query in
      bind_err (get_lower item ''title'') (\<lambda>title.
      bind_err (get_lower item ''content'') (\<lambda>content.
      bind_err (get_lower item ''summary'') (\<lambda>summary.
      let title_match = str_in query_lower title;
          content_match = str_in query_lower content;
          summary_match = str_in query_lower summary in
      bind_err
        (case ticker of
           None \<Rightarrow> Inr True
         | Some t \<Rightarrow>
             if t = [] then Inr True
             else bind_err (get_each upper item ''related_tickers'')
                    (\<lambda>tickers. Inr (upper t \<in> set tickers)))
        (\<lambda>ticker_match.
      bind_err
        (case tags of
           None \<Rightarrow> Inr True
         | Some ts \<Rightarrow>
             if ts = [] then Inr True
             else bind_err (get_each lower item ''tags'')
                    (\<lambda>item_tags. Inr (list_ex (\<lambda>tag. tag \<in> set item_tags) (map lower ts))))
        (\<lambda>tags_match.
      Inr ((title_match \<or> content_match \<or> summary_match) \<and> ticker_match \<and> tags_match)))))))"

text \<open>
  What \<^verbatim>\<open>datetime.fromisoformat\<close> returns: a naive time or one with an offset, in
  microseconds. The function itself is the library's and an argument of the model;
  \<open>None\<close> is its \<^verbatim>\<open>ValueError\<close>.
\<close>

datatype pydatetime = Naive int | Aware int

definition microseconds_per_day :: int where
  "microseconds_per_day = 86400000000"

text \<open>
  The recency block of \<^verbatim>\<open>_calculate_relevance\<close>, inside \<^verbatim>\<open>try: ... except: pass\<close>: every
  exception leaves the score as it is. \<^verbatim>\<open>now\<close> is naive, so subtracting an aware time
  raises; \<^verbatim>\<open>timedelta.days\<close> is the floor of the difference in days.
\<close>

definition recency ::
  "(string \<Rightarrow> pydatetime option) \<Rightarrow> int \<Rightarrow> item \<Rightarrow> real \<Rightarrow> real" where
  "recency fromisoformat now item score =
     (case (case map_of item ''created_at'' of None \<Rightarrow> JStr [] | Some v \<Rightarrow> v) of
        JStr s \<Rightarrow>
          (case fromisoformat s of
             Some (Naive created_at) \<Rightarrow>
               (let days_old = (now - created_at) div microseconds_per_day in
                if days_old < 30 then score + 1/2
                else if days_old < 90 then score + 1/5
                else score)
           | _ \<Rightarrow> score)
      | _ \<Rightarrow> score)"

text \<open>One \<^verbatim>\<open>for term in query_terms: if term in text: score += weight\<close>.\<close>

definition add_matches :: "real \<Rightarrow> string list \<Rightarrow> string \<Rightarrow> real \<Rightarrow> real" where
  "add_matches weight query_terms txt score =
     fold (\<lambda>term sc. if str_in term txt then sc + weight else sc) query_terms score"

definition calculate_relevance ::
  "(string \<Rightarrow> pydatetime option) \<Rightarrow> int \<Rightarrow> item \<Rightarrow> string \<Rightarrow> error + real" where
  "calculate_relevance fromisoformat now item query =
     (let query_terms = split (lower query); score = 0 in
      bind_err (get_lower item ''title'') (\<lambda>title.
      let score = add_matches 3 query_terms title score in
      bind_err (get_lower item ''content'') (\<lambda>content.
      let score = add_matches 1 query_terms content score in
      bind_err (get_lower item ''summary'') (\<lambda>summary.
      let score = add_matches (3/2) query_terms summary score in
      Inr (recency fromisoformat now item score)))))"

text \<open>The two assignments that annotate a match.\<close>

definition annotate :: "string \<Rightarrow> real \<Rightarrow> item \<Rightarrow> item" where
  "annotate collection_name score item =
     AList.update ''collection'' (JStr collection_name)
       (AList.update ''relevance_score'' (JNum score) item)"

text \<open>
  The inner loop of \<^verbatim>\<open>search_knowledge_base\<close> over one loaded collection, appending to
  \<open>results\<close>. \<^verbatim>\<open>_calculate_relevance\<close> calls \<^verbatim>\<open>datetime.now()\<close> itself, once for each
  matched record: \<open>clock k\<close> is the reading for the match number \<open>k\<close> of the search, counted
  from 0, and the matches before it are the results so far.
\<close>

fun search_items ::
  "(string \<Rightarrow> pydatetime option) \<Rightarrow> (nat \<Rightarrow> int) \<Rightarrow> string \<Rightarrow> string option \<Rightarrow>
   string list option \<Rightarrow> string \<Rightarrow> item list \<Rightarrow> item list \<Rightarrow> error + item list" where
  "search_items fromisoformat clock query ticker tags collection_name [] results = Inr results"
| "search_items fromisoformat clock query ticker tags collection_name (item # items) results =
     bind_err (matches_search item query ticker tags) (\<lambda>matched.
       if matched
       then bind_err (calculate_relevance fromisoformat (clock (length results)) item query)
              (\<lambda>score.
                search_items fromisoformat clock query ticker tags collection_name items
                  (results @ [annotate collection_name score item]))
       else search_items fromisoformat clock query ticker tags collection_name items results)"

text \<open>The outer loop, over the collections chosen by \<open>search_type\<close>.\<close>

fun search_collections ::
  "(string \<Rightarrow> pydatetime option) \<Rightarrow> (nat \<Rightarrow> int) \<Rightarrow> filesystem \<Rightarrow> string \<Rightarrow> string option \<Rightarrow>
   string list option \<Rightarrow> (string \<times> path) list \<Rightarrow> item list \<Rightarrow> error + item list" where
  "search_collections fromisoformat clock fs query ticker tags [] results = Inr results"
| "search_collections fromisoformat clock fs query ticker tags ((collection_name, file_path) # cs) results =
     bind_err
       (search_items fromisoformat clock query ticker tags collection_name
          (load_data fs file_path) results)
       (\<lambda>results'. search_collections fromisoformat clock fs query ticker tags cs results')"

definition collections_of :: "string \<Rightarrow> (string \<times> path) list" where
  "collections_of search_type =
     (if search_type = ''all'' \<or> search_type = ''notes'' then [(''notes'', notes_file)] else [])
     @ (if search_type = ''all'' \<or> search_type = ''articles'' then [(''articles'', articles_file)] else [])
     @ (if search_type = ''all'' \<or> search_type = ''research'' then [(''research'', research_file)] else [])"

text \<open>The sort key \<^verbatim>\<open>x.get('relevance_score', 0)\<close>; every result carries a number there.\<close>

definition relevance_score :: "item \<Rightarrow> real" where
  "relevance_score x = (case map_of x ''relevance_score'' of Some (JNum r) \<Rightarrow> r | _ \<Rightarrow> 0)"

text \<open>\<^verbatim>\<open>results.sort(key=..., reverse=True)\<close>: Python's sort is stable, also in reverse, so
  it is the stable sort by the negated key.\<close>

definition sort_reverse :: "item list \<Rightarrow> item list" where
  "sort_reverse results = sort_key (\<lambda>x. - relevance_score x) results"

text \<open>\<^verbatim>\<open>search_knowledge_base\<close>: any exception gives the empty list.\<close>

definition search_knowledge_base ::
  "(string \<Rightarrow> pydatetime option) \<Rightarrow> (nat \<Rightarrow> int) \<Rightarrow> filesystem \<Rightarrow> string \<Rightarrow> string \<Rightarrow>
   string option \<Rightarrow> string list option \<Rightarrow> item list" where
  "search_knowledge_base fromisoformat clock fs query search_type ticker tags =
     (case search_collections fromisoformat clock fs query ticker tags
             (collections_of search_type) [] of
        Inl e \<Rightarrow> []
      | Inr results \<Rightarrow> sort_reverse results)"

section \<open>The score as the specification words it\<close>

text \<open>A text field of a record in lower case, an absent field being the empty string.\<close>

definition field_text :: "item \<Rightarrow> string \<Rightarrow> string" where
  "field_text item key = (case map_of item key of Some (JStr s) \<Rightarrow> lower s | _ \<Rightarrow> [])"

text \<open>What one query term adds: each of the three fields is tested once.\<close>

definition term_weight :: "item \<Rightarrow> string \<Rightarrow> real" where
  "term_weight item term =
     (if str_in term (field_text item ''title'') then 3 else 0)
     + (if str_in term (field_text item ''content'') then 1 else 0)
     + (if str_in term (field_text item ''summary'') then 3/2 else 0)"

definition created_at_text :: "item \<Rightarrow> string option" where
  "created_at_text item =
     (case map_of item ''created_at'' of None \<Rightarrow> Some [] | Some (JStr s) \<Rightarrow> Some s | Some _ \<Rightarrow> None)"

text \<open>The recency bonus: one half when the record was created less than 30 days before
  \<open>now\<close>, else one fifth when less than 90 days before, else nothing; nothing when
  \<^verbatim>\<open>created_at\<close> is no string or does not parse as a naive time. A creation time after
  \<open>now\<close> is less than 30 days before it.\<close>

definition recency_bonus :: "(string \<Rightarrow> pydatetime option) \<Rightarrow> int \<Rightarrow> item \<Rightarrow> real" where
  "recency_bonus fromisoformat now item =
     (case Option.bind (created_at_text item) fromisoformat of
        Some (Naive created) \<Rightarrow>
          if now - created < 30 * microseconds_per_day then 1/2
          else if now - created < 90 * microseconds_per_day then 1/5
          else 0
      | _ \<Rightarrow> 0)"

definition relevance_spec ::
  "(string \<Rightarrow> pydatetime option) \<Rightarrow> int \<Rightarrow> item \<Rightarrow> string \<Rightarrow> real" where
  "relevance_spec fromisoformat now item query =
     (\<Sum>term\<leftarrow>split (lower query). term_weight item term)
     + recency_bonus fromisoformat now item"

section \<open>The search as the specification words it\<close>

text \<open>A search raises nothing when \<^verbatim>\<open>_matches_search\<close> returns on every record of every
  collection it reads.\<close>

definition all_readable ::
  "filesystem \<Rightarrow> string \<Rightarrow> string option \<Rightarrow> string list option \<Rightarrow> (string \<times> path) list \<Rightarrow> bool" where
  "all_readable fs query ticker tags cs =
     list_all (\<lambda>(collection_name, file_path).
        list_all (\<lambda>item. \<not> isl (matches_search item query ticker tags)) (load_data fs file_path)) cs"

definition searchable ::
  "filesystem \<Rightarrow> string \<Rightarrow> string \<Rightarrow> string option \<Rightarrow> string list option \<Rightarrow> bool" where
  "searchable fs query search_type ticker tags =
     all_readable fs query ticker tags (collections_of search_type)"

text \<open>The matches of one collection in storage order, each with the name of its
  collection.\<close>

definition matches_of ::
  "string \<Rightarrow> string option \<Rightarrow> string list option \<Rightarrow> string \<Rightarrow> item list \<Rightarrow> (string \<times> item) list" where
  "matches_of query ticker tags collection_name items =
     map (Pair collection_name)
       (filter (\<lambda>item. matches_search item query ticker tags = Inr True) items)"

text \<open>The matches in the order the search discovers them: notes, then articles, then
  research.\<close>

definition all_matches ::
  "filesystem \<Rightarrow> string \<Rightarrow> string \<Rightarrow> string option \<Rightarrow> string list option \<Rightarrow> (string \<times> item) list" where
  "all_matches fs query search_type ticker tags =
     (if search_type = ''all'' \<or> search_type = ''notes''
      then matches_of query ticker tags ''notes'' (load_data fs notes_file) else [])
     @ (if search_type = ''all'' \<or> search_type = ''articles''
      then matches_of query ticker tags ''articles'' (load_data fs articles_file) else [])
     @ (if search_type = ''all'' \<or> search_type = ''research''
      then matches_of query ticker tags ''research'' (load_data fs research_file) else [])"

text \<open>Each match annotated with its collection and its score, the score of match number
  \<open>i\<close> taken at the clock reading \<open>clock i\<close>; \<open>k\<close> is the number of the first match.\<close>

definition scored ::
  "(string \<Rightarrow> pydatetime option) \<Rightarrow> (nat \<Rightarrow> int) \<Rightarrow> string \<Rightarrow> nat \<Rightarrow> (string \<times> item) list \<Rightarrow>
   item list" where
  "scored fromisoformat clock query k ms =
     map (\<lambda>(i, collection_name, item).
            annotate collection_name (relevance_spec fromisoformat (clock i) item query) item)
       (enumerate k ms)"

definition discovered ::
  "(string \<Rightarrow> pydatetime option) \<Rightarrow> (nat \<Rightarrow> int) \<Rightarrow> filesystem \<Rightarrow> string \<Rightarrow> string \<Rightarrow>
   string option \<Rightarrow> string list option \<Rightarrow> item list" where
  "discovered fromisoformat clock fs query search_type ticker tags =
     scored fromisoformat clock query 0 (all_matches fs query search_type ticker tags)"

text \<open>Two clocks give every stored record the same recency bonus.\<close>

definition same_bonus ::
  "(string \<Rightarrow> pydatetime option) \<Rightarrow> (nat \<Rightarrow> int) \<Rightarrow> (nat \<Rightarrow> int) \<Rightarrow> filesystem \<Rightarrow> bool" where
  "same_bonus fromisoformat clock clock' fs =
     (\<forall>p k. list_all (\<lambda>item. recency_bonus fromisoformat (clock' k) item
                               = recency_bonus fromisoformat (clock k) item)
              (load_data fs p))"

section \<open>The matching predicate as the specification words it\<close>

text \<open>The strings of a list-valued field (\<^verbatim>\<open>related_tickers\<close>, \<^verbatim>\<open>tags\<close>).\<close>

definition record_strings :: "item \<Rightarrow> string \<Rightarrow> string list" where
  "record_strings item key =
     (case map_of item key of
        Some (JArr xs) \<Rightarrow> concat (map (\<lambda>x. case x of JStr s \<Rightarrow> [s] | _ \<Rightarrow> []) xs)
      | _ \<Rightarrow> [])"

text \<open>A record matches when the whole query, in lower case, is a substring of its title,
  content or summary (an absent field is the empty string), and, when a ticker is given,
  the ticker equals an element of \<^verbatim>\<open>related_tickers\<close> up to case, and, when tags are given,
  one of them equals a tag of the record up to case.\<close>

definition matches_spec :: "item \<Rightarrow> string \<Rightarrow> string option \<Rightarrow> string list option \<Rightarrow> bool" where
  "matches_spec item query ticker tags =
     ((str_in (lower query) (field_text item ''title'')
        \<or> str_in (lower query) (field_text item ''content'')
        \<or> str_in (lower query) (field_text item ''summary''))
      \<and> (case ticker of
           None \<Rightarrow> True
         | Some t \<Rightarrow> t = [] \<or> (\<exists>x \<in> set (record_strings item ''related_tickers''). lower x = lower t))
      \<and> (case tags of
           None \<Rightarrow> True
         | Some ts \<Rightarrow> ts = [] \<or>
             (\<exists>tag \<in> set ts. \<exists>x \<in> set (record_strings item ''tags''). lower x = lower tag)))"

text \<open>The records on which \<^verbatim>\<open>_matches_search\<close> raises nothing whatever the filters: each
  text field absent or a string, each list field absent or a list of strings.\<close>

definition text_ok :: "item \<Rightarrow> string \<Rightarrow> bool" where
  "text_ok item key = (case map_of item key of None \<Rightarrow> True | Some (JStr s) \<Rightarrow> True | Some _ \<Rightarrow> False)"

definition strings_ok :: "item \<Rightarrow> string \<Rightarrow> bool" where
  "strings_ok item key =
     (case map_of item key of
        None \<Rightarrow> True
      | Some (JArr xs) \<Rightarrow> list_all (\<lambda>x. case x of JStr s \<Rightarrow> True | _ \<Rightarrow> False) xs
      | Some _ \<Rightarrow> False)"

definition well_typed :: "item \<Rightarrow> bool" where
  "well_typed item =
     (text_ok item ''title'' \<and> text_ok item ''content'' \<and> text_ok item ''summary''
      \<and> strings_ok item ''related_tickers'' \<and> strings_ok item ''tags'')"

section \<open>Records and their identifiers\<close>

text \<open>Every record the program writes has an \<^verbatim>\<open>id\<close>; \<open>id_is\<close>: the record's \<^verbatim>\<open>id\<close> is the
  string asked for.\<close>

definition has_id :: "item \<Rightarrow> bool" where
  "has_id item = (map_of item ''id'' \<noteq> None)"

definition id_is :: "string \<Rightarrow> item \<Rightarrow> bool" where
  "id_is item_id item = (map_of item ''id'' = Some (JStr item_id))"

text \<open>The records of a collection other than those with a given id.\<close>

definition without :: "string \<Rightarrow> item list \<Rightarrow> item list" where
  "without item_id items = filter (\<lambda>item. \<not> id_is item_id item) items"

section \<open>The order of the two timestamps\<close>

text \<open>
  \<^verbatim>\<open>created_at\<close> and \<^verbatim>\<open>updated_at\<close> are the strings \<^verbatim>\<open>datetime.now().isoformat()\<close> returned.
  In that fixed-width format (four-digit year, an optional fraction of a second last) the
  lexicographic order of two strings is the order of the two times, so the strings are
  compared. \<open>created_by now\<close>: the record was created no later than the clock reading
  \<open>now\<close>.
\<close>

definition timestamps_ordered :: "item \<Rightarrow> bool" where
  "timestamps_ordered item =
     (case (map_of item ''created_at'', map_of item ''updated_at'') of
        (Some (JStr created), Some (JStr updated)) \<Rightarrow> created \<le> updated
      | _ \<Rightarrow> False)"

definition created_by :: "string \<Rightarrow> item \<Rightarrow> bool" where
  "created_by now item =
     (case map_of item ''created_at'' of Some (JStr created) \<Rightarrow> created \<le> now | _ \<Rightarrow> False)"

section \<open>Example stores\<close>

text \<open>A clock for the examples: \<^verbatim>\<open>fromisoformat\<close> on the one string they use, in microseconds
  since 0001-01-01, and the reading one day later.\<close>

definition sample_fromisoformat :: "string \<Rightarrow> pydatetime option" where
  "sample_fromisoformat s =
     (if s = ''2024-05-01T12:00:00'' then Some (Naive 63850161600000000) else None)"

definition one_day_later :: int where
  "one_day_later = 63850248000000000"

definition apple_record :: item where
  "apple_record =
     [(''id'', JStr ''n1''), (''type'', JStr ''note''), (''title'', JStr ''Apple earnings beat''),
      (''content'', JStr ''iPhone sales up''), (''tags'', JArr []), (''related_tickers'', JArr []),
      (''created_at'', JStr ''2024-05-01T12:00:00''),
      (''updated_at'', JStr ''2024-05-01T12:00:00'')]"

definition empty_file :: backing_file where
  "empty_file = \<lparr>stored = Some [], writable = True, tears = False\<rparr>"

definition empty_kb :: filesystem where
  "empty_kb = (\<lambda>p. empty_file)"

text \<open>Two notes and a research entry; two of the three score the same for the query
  \<^verbatim>\<open>apple\<close>.\<close>

definition stamped :: "(string \<times> json) list \<Rightarrow> item" where
  "stamped kvs =
     kvs @ [(''tags'', JArr []), (''related_tickers'', JArr []),
       (''created_at'', JStr ''2024-05-01T12:00:00''),
       (''updated_at'', JStr ''2024-05-01T12:00:00'')]"

definition margin_note :: item where
  "margin_note =
     stamped [(''id'', JStr ''n2''), (''type'', JStr ''note''), (''title'', JStr ''Quarter notes''),
       (''content'', JStr ''apple margin'')]"

definition outlook_research :: item where
  "outlook_research =
     stamped [(''id'', JStr ''r1''), (''type'', JStr ''research''), (''title'', JStr ''Apple outlook''),
       (''content'', JStr ''services growth''), (''source'', JNull)]"

definition ranking_kb :: filesystem where
  "ranking_kb =
     empty_kb(notes_file := \<lparr>stored = Some [apple_record, margin_note], writable = True, tears = False\<rparr>,
              research_file := \<lparr>stored = Some [outlook_research], writable = True, tears = False\<rparr>)"

text \<open>The same files when no open for writing is granted, and when every write fails
  after the open.\<close>

definition read_only :: "filesystem \<Rightarrow> filesystem" where
  "read_only fs = (\<lambda>p. (fs p)\<lparr>writable := False, tears := False\<rparr>)"

definition failing_disk :: "filesystem \<Rightarrow> filesystem" where
  "failing_disk fs = (\<lambda>p. (fs p)\<lparr>writable := False, tears := True\<rparr>)"

text \<open>The specification's scenario: a note on Apple, and an article added with a summary
  and no content, which \<^verbatim>\<open>add_article\<close> stores as \<^verbatim>\<open>None\<close>.\<close>

definition apple_q4_note :: item where
  "apple_q4_note =
     [(''id'', JStr ''n-1''), (''type'', JStr ''note''), (''title'', JStr ''Apple Q4''),
      (''content'', JStr ''strong quarter''), (''tags'', JArr [JStr ''earnings'']),
      (''related_tickers'', JArr [JStr ''AAPL'']),
      (''created_at'', JStr ''2024-05-01T12:00:00''),
      (''updated_at'', JStr ''2024-05-01T12:00:00'')]"

definition tech_outlook_article :: item where
  "tech_outlook_article =
     [(''id'', JStr ''a-1''), (''type'', JStr ''article''), (''title'', JStr ''Tech Outlook''),
      (''url'', JStr ''https://example.com/tech-outlook''), (''summary'', JStr ''sector trends''),
      (''content'', JNull), (''tags'', JArr []),
      (''related_tickers'', JArr [JStr ''AAPL'', JStr ''MSFT'']),
      (''created_at'', JStr ''2024-05-01T12:00:00''),
      (''updated_at'', JStr ''2024-05-01T12:00:00'')]"

text \<open>The store after \<^verbatim>\<open>add_note\<close> and \<^verbatim>\<open>add_article\<close> of the specification's scenario, the
  article added without content.\<close>

definition scenario_kb :: "error \<times> filesystem + string \<times> filesystem" where
  "scenario_kb =
     bind_err
       (add_note empty_kb ''n-1'' ''2024-05-01T12:00:00'' ''2024-05-01T12:00:00''
          ''Apple Q4'' ''strong quarter'' (Some [''earnings'']) (Some [''AAPL'']))
       (\<lambda>(note_id, fs).
          add_article fs ''a-1'' ''2024-05-01T12:00:00'' ''2024-05-01T12:00:00''
            ''Tech Outlook'' ''https://example.com/tech-outlook'' (Some ''sector trends'') None
            None (Some [''AAPL'', ''MSFT'']))"

text \<open>A store whose notes file cannot be read, and one where a research entry has the id
  of a note.\<close>

definition unreadable_notes_kb :: filesystem where
  "unreadable_notes_kb = ranking_kb(notes_file := \<lparr>stored = None, writable = True, tears = False\<rparr>)"

definition shadowed_research :: item where
  "shadowed_research =
     stamped [(''id'', JStr ''n1''), (''type'', JStr ''research''), (''title'', JStr ''Same id''),
       (''content'', JStr ''kept in the research file''), (''source'', JNull)]"

definition duplicate_id_kb :: filesystem where
  "duplicate_id_kb =
     ranking_kb(research_file := \<lparr>stored = Some [outlook_research, shadowed_research], writable = True, tears = False\<rparr>)"

text \<open>Two updates of the first note of \<open>ranking_kb\<close>: the specification's example, new
  tags and a field the note does not have; and one that names \<^verbatim>\<open>id\<close>, \<^verbatim>\<open>type\<close> and
  \<^verbatim>\<open>created_at\<close>.\<close>

definition retag_updates :: "(string \<times> json) list" where
  "retag_updates = [(''tags'', JArr [JStr ''x'']), (''rating'', JNum 5)]"

definition retagged_kb :: filesystem where
  "retagged_kb = snd (update_item ranking_kb ''2024-06-01T09:00:00'' ''n1'' retag_updates ''notes'')"




text \<open>An update that names \<^verbatim>\<open>created_at\<close>.\<close>

definition postdate_updates :: "(string \<times> json) list" where
  "postdate_updates = [(''created_at'', JStr ''2030-01-01T00:00:00'')]"

text \<open>Two notes that match \<^verbatim>\<open>apple\<close> in their content only, created 19 days apart, and two
  clock readings: one day and sixteen days after the second note was created, that is 20
  and 35 days after the first.\<close>

definition two_fromisoformat :: "string \<Rightarrow> pydatetime option" where
  "two_fromisoformat s =
     (if s = ''2024-05-01T12:00:00'' then Some (Naive 63850161600000000)
      else if s = ''2024-05-20T12:00:00'' then Some (Naive 63851803200000000)
      else None)"

definition recent_note :: item where
  "recent_note =
     [(''id'', JStr ''n4''), (''type'', JStr ''note''), (''title'', JStr ''Supplier list''),
      (''content'', JStr ''apple suppliers''), (''tags'', JArr []), (''related_tickers'', JArr []),
      (''created_at'', JStr ''2024-05-20T12:00:00''),
      (''updated_at'', JStr ''2024-05-20T12:00:00'')]"

definition boundary_kb :: filesystem where
  "boundary_kb =
     empty_kb(notes_file := \<lparr>stored = Some [margin_note, recent_note], writable = True, tears = False\<rparr>)"

definition on_may_21 :: "nat \<Rightarrow> int" where
  "on_may_21 k = 63851889600000000"

definition on_june_5 :: "nat \<Rightarrow> int" where
  "on_june_5 k = 63853185600000000"

definition result_ids :: "item list \<Rightarrow> json option list" where
  "result_ids results = map (\<lambda>r. map_of r ''id'') results"

text \<open>A clock that stands at \<open>one_day_later\<close>, and one an hour ahead of it.\<close>

definition at_one_day_later :: "nat \<Rightarrow> int" where
  "at_one_day_later k = one_day_later"

definition an_hour_after :: "nat \<Rightarrow> int" where
  "an_hour_after k = one_day_later + 3600000000"

text \<open>The title of a record and one more of its fields.\<close>

definition title_and :: "string \<Rightarrow> item \<Rightarrow> json option list" where
  "title_and key item = [map_of item ''title'', map_of item key]"

section \<open>The string functions\<close>

text \<open>The substring test is the one of the list library, and \<open>split\<close> returns words that
  are not empty and hold no whitespace.\<close>

lemma str_in_sublist: "str_in sub s \<longleftrightarrow> sublist sub s"
  by (induction s) (simp_all add: sublist_Cons_right)

lemma split_from_words:
  "\<forall>word \<in> set (split_from w s). word \<noteq> [] \<and> (list_all (\<lambda>c. \<not> is_space c) w \<longrightarrow> list_all (\<lambda>c. \<not> is_space c) word)"
  by (induction w s rule: split_from.induct) auto

lemma split_words: "word \<in> set (split s) \<Longrightarrow> word \<noteq> [] \<and> list_all (\<lambda>c. \<not> is_space c) word"
  using split_from_words [of "[]" s] by (simp add: split_def)

section \<open>Unknown collection names\<close>

text \<open>
  C9. For every id and every updates mapping, \<^verbatim>\<open>update_item\<close> and \<^verbatim>\<open>delete_item\<close> called
  with a collection name other than \<^verbatim>\<open>notes\<close>, \<^verbatim>\<open>articles\<close> and \<^verbatim>\<open>research\<close> return false and
  leave the three files as they were.
\<close>

theorem unknown_collection_rejected:
  assumes "item_type \<notin> {''notes'', ''articles'', ''research''}"
  shows "update_item fs now item_id updates item_type = (False, fs)
       \<and> delete_item fs item_id item_type = (False, fs)"
proof -
  from assms have "collection_file item_type = None"
    by (simp add: collection_file_def)
  then show ?thesis
    by (simp add: update_item_def delete_item_def)
qed

theorem unknown_collection_rejected_witness:
  "update_item empty_kb ''2024-05-01T10:00:00'' ''a1'' [(''title'', JStr ''x'')] ''all''
     = (False, empty_kb)
   \<and> delete_item empty_kb ''a1'' ''all'' = (False, empty_kb)"
  using unknown_collection_rejected [of "''all''" empty_kb "''2024-05-01T10:00:00''" "''a1''"
      "[(''title'', JStr ''x'')]"]
  by simp

section \<open>The relevance score\<close>

lemma lower_Nil: "lower [] = []"
  by (simp add: lower_def)

lemma get_lower_field_text: "get_lower item key = Inr t \<Longrightarrow> t = field_text item key"
  by (auto simp: get_lower_def field_text_def lower_Nil split: option.splits json.splits)

lemma add_matches_sum:
  "add_matches w ts txt score = score + (\<Sum>term\<leftarrow>ts. if str_in term txt then w else 0)"
  unfolding add_matches_def
  by (induction ts arbitrary: score) auto

lemma div_lt_iff: "0 < d \<Longrightarrow> ((a::int) div d < n) = (a < n * d)"
proof
  assume d: "0 < d" and h: "a div d < n"
  have "a = d * (a div d) + a mod d" by simp
  moreover have "a mod d < d" using d by simp
  moreover have "d * (a div d) \<le> d * (n - 1)" using d h by (intro mult_left_mono) auto
  ultimately have "a < d * (n - 1) + d" by linarith
  then show "a < n * d" by (simp add: algebra_simps)
next
  assume d: "0 < d" and h: "a < n * d"
  show "a div d < n"
  proof (rule ccontr)
    assume "\<not> a div d < n"
    then have "n \<le> a div d" by simp
    then have "d * n \<le> d * (a div d)" using d by (intro mult_left_mono) auto
    moreover have "0 \<le> a mod d" using d by simp
    moreover have "a < d * n" using h by (simp add: mult.commute)
    ultimately show False using mult_div_mod_eq [of d a] by linarith
  qed
qed

lemma days_lt: "((a::int) div microseconds_per_day < n) = (a < n * microseconds_per_day)"
  by (rule div_lt_iff) (simp add: microseconds_per_day_def)

lemma recency_bonus_eq: "recency f now item score = score + recency_bonus f now item"
  unfolding recency_def recency_bonus_def created_at_text_def
  by (auto simp: Let_def days_lt split: option.splits json.splits pydatetime.splits)

lemma matches_fields:
  assumes "matches_search item query ticker tags = Inr b"
  shows "get_lower item ''title'' = Inr (field_text item ''title'')
       \<and> get_lower item ''content'' = Inr (field_text item ''content'')
       \<and> get_lower item ''summary'' = Inr (field_text item ''summary'')"
proof -
  from assms obtain t c s where
    "get_lower item ''title'' = Inr t" "get_lower item ''content'' = Inr c"
    "get_lower item ''summary'' = Inr s"
    by (auto simp: matches_search_def bind_err_def Let_def split: sum.splits)
  then show ?thesis
    by (auto dest: get_lower_field_text)
qed

lemma term_weight_sum:
  "(\<Sum>term\<leftarrow>ts. term_weight item term)
   = (\<Sum>term\<leftarrow>ts. if str_in term (field_text item ''title'') then 3 else 0)
   + (\<Sum>term\<leftarrow>ts. if str_in term (field_text item ''content'') then 1 else 0)
   + (\<Sum>term\<leftarrow>ts. if str_in term (field_text item ''summary'') then 3/2 else 0)"
  by (induction ts) (simp_all add: term_weight_def)

text \<open>
  C4. For every matched record (one \<^verbatim>\<open>_matches_search\<close> accepts) the relevance score is the
  sum, over the whitespace-delimited terms of the query in lower case, of 3 if the term
  is a substring of the title, 1 if of the content and 1.5 if of the summary (each a flag
  per term), plus one recency bonus: 0.5 if the record was created less than 30 days
  before now, else 0.2 if less than 90 days, else 0; a \<^verbatim>\<open>created_at\<close> that does not parse adds
  nothing and raises nothing. The witness is the specification's example: title
  "Apple earnings beat", content "iPhone sales up", created one day ago, query "Apple",
  score 3.5.
\<close>

theorem relevance_score_formula:
  assumes "matches_search item query ticker tags = Inr True"
  shows "calculate_relevance fromisoformat now item query
         = Inr (relevance_spec fromisoformat now item query)"
proof -
  note f = matches_fields [OF assms]
  show ?thesis
    unfolding calculate_relevance_def relevance_spec_def
    by (simp add: f bind_err_def Let_def add_matches_sum recency_bonus_eq term_weight_sum)
qed

theorem relevance_score_formula_witness:
  "matches_search apple_record ''Apple'' None None = Inr True
   \<and> calculate_relevance sample_fromisoformat one_day_later apple_record ''Apple'' = Inr (7/2)"
proof -
  have m: "matches_search apple_record ''Apple'' None None = Inr True"
    by code_simp
  have s: "relevance_spec sample_fromisoformat one_day_later apple_record ''Apple'' = 7/2"
    by (simp add: relevance_spec_def term_weight_def field_text_def apple_record_def
          recency_bonus_def created_at_text_def sample_fromisoformat_def microseconds_per_day_def
          one_day_later_def split_def lower_def lower_char_def upper_letters_def
          lower_letters_def is_space_def)
  from relevance_score_formula [OF m, of sample_fromisoformat one_day_later] s m
  show ?thesis by simp
qed

section \<open>The order of the results\<close>

lemma calculate_relevance_total:
  assumes "matches_search item query ticker tags = Inr b"
  shows "calculate_relevance fromisoformat now item query
         = Inr (relevance_spec fromisoformat now item query)"
proof -
  note f = matches_fields [OF assms]
  show ?thesis
    unfolding calculate_relevance_def relevance_spec_def
    by (simp add: f bind_err_def Let_def add_matches_sum recency_bonus_eq term_weight_sum)
qed

lemma scored_Nil: "scored f clock query k [] = []"
  by (simp add: scored_def)

lemma scored_Cons:
  "scored f clock query k ((name, item) # ms)
   = annotate name (relevance_spec f (clock k) item query) item # scored f clock query (Suc k) ms"
  by (simp add: scored_def)

lemma length_scored: "length (scored f clock query k ms) = length ms"
  by (simp add: scored_def)

lemma scored_append:
  "scored f clock query k (xs @ ys)
   = scored f clock query k xs @ scored f clock query (k + length xs) ys"
  by (simp add: scored_def enumerate_append_eq)

lemma search_items_ok:
  assumes "list_all (\<lambda>item. \<not> isl (matches_search item query ticker tags)) items"
  shows "search_items f clock query ticker tags name items results
         = Inr (results @ scored f clock query (length results)
                  (matches_of query ticker tags name items))"
  using assms
proof (induction items arbitrary: results)
  case Nil
  then show ?case by (simp add: matches_of_def scored_Nil)
next
  case (Cons item items)
  from Cons.prems obtain b where b: "matches_search item query ticker tags = Inr b"
    by (cases "matches_search item query ticker tags") auto
  from Cons.prems have rest: "list_all (\<lambda>item. \<not> isl (matches_search item query ticker tags)) items"
    by simp
  show ?case
    using b Cons.IH [OF rest] calculate_relevance_total [OF b, of f "clock (length results)"]
    by (simp add: bind_err_def matches_of_def scored_Cons)
qed

lemma search_items_fails:
  assumes "\<not> list_all (\<lambda>item. \<not> isl (matches_search item query ticker tags)) items"
  shows "isl (search_items f clock query ticker tags name items results)"
  using assms
proof (induction items arbitrary: results)
  case Nil
  then show ?case by simp
next
  case (Cons item items)
  show ?case
  proof (cases "matches_search item query ticker tags")
    case (Inl e)
    then show ?thesis by (simp add: bind_err_def)
  next
    case (Inr b)
    with Cons.prems have "\<not> list_all (\<lambda>item. \<not> isl (matches_search item query ticker tags)) items"
      by simp
    from Cons.IH [OF this] show ?thesis
      using Inr calculate_relevance_total [OF Inr, of f "clock (length results)"]
      by (simp add: bind_err_def)
  qed
qed

lemma search_collections_ok:
  assumes "all_readable fs query ticker tags cs"
  shows "search_collections f clock fs query ticker tags cs results
         = Inr (results @ scored f clock query (length results)
                  (concat (map (\<lambda>(name, p). matches_of query ticker tags name (load_data fs p)) cs)))"
  using assms
proof (induction cs arbitrary: results)
  case Nil
  then show ?case by (simp add: scored_Nil)
next
  case (Cons c cs)
  obtain name p where c: "c = (name, p)" by (cases c)
  from Cons.prems c have here: "list_all (\<lambda>item. \<not> isl (matches_search item query ticker tags)) (load_data fs p)"
    and rest: "all_readable fs query ticker tags cs"
    by (simp_all add: all_readable_def)
  show ?case
    using search_items_ok [OF here] Cons.IH [OF rest]
    by (simp add: c bind_err_def scored_append length_scored)
qed

lemma search_collections_fails:
  assumes "\<not> all_readable fs query ticker tags cs"
  shows "isl (search_collections f clock fs query ticker tags cs results)"
  using assms
proof (induction cs arbitrary: results)
  case Nil
  then show ?case by (simp add: all_readable_def)
next
  case (Cons c cs)
  obtain name p where c: "c = (name, p)" by (cases c)
  show ?case
  proof (cases "list_all (\<lambda>item. \<not> isl (matches_search item query ticker tags)) (load_data fs p)")
    case True
    with Cons.prems c have "\<not> all_readable fs query ticker tags cs"
      by (simp add: all_readable_def)
    from Cons.IH [OF this] show ?thesis
      using search_items_ok [OF True]
      by (simp add: c bind_err_def)
  next
    case False
    from search_items_fails [OF False, of f clock name results]
    obtain e where "search_items f clock query ticker tags name (load_data fs p) results = Inl e"
      by (cases "search_items f clock query ticker tags name (load_data fs p) results") auto
    then show ?thesis
      by (simp add: c bind_err_def)
  qed
qed

lemma all_matches_concat:
  "all_matches fs query search_type ticker tags
   = concat (map (\<lambda>(name, p). matches_of query ticker tags name (load_data fs p))
       (collections_of search_type))"
  by (simp add: all_matches_def collections_of_def)

lemma sort_reverse_descending:
  "sorted_wrt (\<lambda>a b. relevance_score b \<le> relevance_score a) (sort_reverse results)"
proof -
  have "sorted (map (\<lambda>x. - relevance_score x) (sort_reverse results))"
    unfolding sort_reverse_def by (rule sorted_sort_key)
  then show ?thesis
    by (simp add: sorted_map)
qed

lemma sort_reverse_stable:
  "filter (\<lambda>r. relevance_score r = s) (sort_reverse results)
   = filter (\<lambda>r. relevance_score r = s) results"
proof -
  have "filter (\<lambda>r. - relevance_score r = - s) (sort_reverse results)
        = filter (\<lambda>r. - relevance_score r = - s) results"
    unfolding sort_reverse_def by (rule sort_key_stable)
  then show ?thesis by simp
qed

lemma mset_sort_reverse: "mset (sort_reverse results) = mset results"
  by (simp add: sort_reverse_def)

text \<open>The score depends on the clock through the recency bonus only.\<close>

lemma calculate_relevance_same_bonus:
  assumes "recency_bonus f now' item = recency_bonus f now item"
  shows "calculate_relevance f now' item query = calculate_relevance f now item query"
  using assms
  by (simp add: calculate_relevance_def bind_err_def Let_def recency_bonus_eq split: sum.splits)

lemma search_items_same_bonus:
  assumes "\<forall>k. list_all (\<lambda>item. recency_bonus f (clock' k) item = recency_bonus f (clock k) item) items"
  shows "search_items f clock' query ticker tags name items results
         = search_items f clock query ticker tags name items results"
  using assms
proof (induction items arbitrary: results)
  case Nil
  then show ?case by simp
next
  case (Cons item items)
  from Cons.prems
  have here: "\<forall>k. recency_bonus f (clock' k) item = recency_bonus f (clock k) item"
    and rest: "\<forall>k. list_all (\<lambda>item. recency_bonus f (clock' k) item = recency_bonus f (clock k) item) items"
    by simp_all
  from calculate_relevance_same_bonus [OF here [rule_format]]
  have "calculate_relevance f (clock' (length results)) item query
        = calculate_relevance f (clock (length results)) item query" .
  with Cons.IH [OF rest] show ?case
    by (simp add: bind_err_def split: sum.splits)
qed

lemma search_collections_same_bonus:
  assumes "\<forall>p. load_data fs' p = load_data fs p" and "same_bonus f clock clock' fs"
  shows "search_collections f clock' fs' query ticker tags cs results
         = search_collections f clock fs query ticker tags cs results"
proof (induction cs arbitrary: results)
  case Nil
  then show ?case by simp
next
  case (Cons c cs)
  obtain name p where c: "c = (name, p)" by (cases c)
  from assms(2) have "\<forall>k. list_all (\<lambda>item. recency_bonus f (clock' k) item
                                    = recency_bonus f (clock k) item) (load_data fs p)"
    by (simp add: same_bonus_def)
  from search_items_same_bonus [OF this] Cons.IH assms(1) show ?case
    by (simp add: c bind_err_def split: sum.splits)
qed

text \<open>
  C5, as stated: two search calls with the same arguments on the same state return the
  same ordered results. The score reads the clock: of two notes that match \<^verbatim>\<open>apple\<close> alike,
  the older comes first on May 21, when both are less than 30 days old, and last on
  June 5, when it is 35 days old and the other 16.
\<close>

theorem search_clock_counterexample:
  "result_ids (search_knowledge_base two_fromisoformat on_may_21 boundary_kb ''apple'' ''all'' None None)
     = [Some (JStr ''n2''), Some (JStr ''n4'')]
   \<and> result_ids (search_knowledge_base two_fromisoformat on_june_5 boundary_kb ''apple'' ''all'' None None)
     = [Some (JStr ''n4''), Some (JStr ''n2'')]"
  by code_simp

text \<open>
  C5, amended. For every state of the collections and every search call, the results are
  sorted by relevance score in descending order; when the search raises nothing they are
  the matches in the order of discovery (notes before articles before research, each in
  storage order), each scored at its own reading of the clock, rearranged so that results
  of equal score keep that order, and otherwise the result is empty. The result is a
  function of what the three files hold, the readings of the clock and the arguments:
  two calls with the same arguments on the same collections return the same list
  whenever every stored record gets the same recency bonus at the clock readings of both
  calls, so when no record passes its 30th or 90th day between them.
\<close>

theorem search_sorted_stable:
  "sorted_wrt (\<lambda>a b. relevance_score b \<le> relevance_score a)
     (search_knowledge_base f clock fs query search_type ticker tags)
   \<and> (if searchable fs query search_type ticker tags
      then mset (search_knowledge_base f clock fs query search_type ticker tags)
             = mset (discovered f clock fs query search_type ticker tags)
         \<and> (\<forall>s. filter (\<lambda>r. relevance_score r = s)
                  (search_knowledge_base f clock fs query search_type ticker tags)
                = filter (\<lambda>r. relevance_score r = s)
                  (discovered f clock fs query search_type ticker tags))
      else search_knowledge_base f clock fs query search_type ticker tags = [])
   \<and> ((\<forall>p. load_data fs' p = load_data fs p) \<and> same_bonus f clock clock' fs
        \<longrightarrow> search_knowledge_base f clock' fs' query search_type ticker tags
            = search_knowledge_base f clock fs query search_type ticker tags)"
proof (intro conjI)
  show "sorted_wrt (\<lambda>a b. relevance_score b \<le> relevance_score a)
     (search_knowledge_base f clock fs query search_type ticker tags)"
    by (simp add: search_knowledge_base_def sort_reverse_descending split: sum.splits)
next
  show "if searchable fs query search_type ticker tags
      then mset (search_knowledge_base f clock fs query search_type ticker tags)
             = mset (discovered f clock fs query search_type ticker tags)
         \<and> (\<forall>s. filter (\<lambda>r. relevance_score r = s)
                  (search_knowledge_base f clock fs query search_type ticker tags)
                = filter (\<lambda>r. relevance_score r = s)
                  (discovered f clock fs query search_type ticker tags))
      else search_knowledge_base f clock fs query search_type ticker tags = []"
  proof (cases "searchable fs query search_type ticker tags")
    case True
    then have "all_readable fs query ticker tags (collections_of search_type)"
      by (simp add: searchable_def)
    from search_collections_ok [OF this, of f clock "[]"]
    have "search_knowledge_base f clock fs query search_type ticker tags
          = sort_reverse (discovered f clock fs query search_type ticker tags)"
      by (simp add: search_knowledge_base_def discovered_def all_matches_concat)
    with True show ?thesis
      by (simp add: mset_sort_reverse sort_reverse_stable)
  next
    case False
    then have "\<not> all_readable fs query ticker tags (collections_of search_type)"
      by (simp add: searchable_def)
    from search_collections_fails [OF this, of f clock "[]"] False
    show ?thesis
      by (auto simp: search_knowledge_base_def split: sum.splits)
  qed
next
  show "(\<forall>p. load_data fs' p = load_data fs p) \<and> same_bonus f clock clock' fs
        \<longrightarrow> search_knowledge_base f clock' fs' query search_type ticker tags
            = search_knowledge_base f clock fs query search_type ticker tags"
    using search_collections_same_bonus [of fs' fs f clock clock']
    by (simp add: search_knowledge_base_def)
qed

theorem search_sorted_stable_witness:
  "searchable ranking_kb ''apple'' ''all'' None None
   \<and> discovered sample_fromisoformat at_one_day_later ranking_kb ''apple'' ''all'' None None
       = [annotate ''notes'' (7/2) apple_record, annotate ''notes'' (3/2) margin_note,
          annotate ''research'' (7/2) outlook_research]
   \<and> search_knowledge_base sample_fromisoformat at_one_day_later ranking_kb ''apple'' ''all'' None None
       = [annotate ''notes'' (7/2) apple_record, annotate ''research'' (7/2) outlook_research,
          annotate ''notes'' (3/2) margin_note]
   \<and> sorted_wrt (\<lambda>a b. relevance_score b \<le> relevance_score a)
       (search_knowledge_base sample_fromisoformat at_one_day_later ranking_kb ''apple'' ''all'' None None)
   \<and> mset (search_knowledge_base sample_fromisoformat at_one_day_later ranking_kb ''apple'' ''all'' None None)
       = mset (discovered sample_fromisoformat at_one_day_later ranking_kb ''apple'' ''all'' None None)
   \<and> same_bonus sample_fromisoformat at_one_day_later an_hour_after ranking_kb
   \<and> search_knowledge_base sample_fromisoformat an_hour_after (read_only ranking_kb) ''apple'' ''all''
         None None
       = search_knowledge_base sample_fromisoformat at_one_day_later ranking_kb ''apple'' ''all'' None None"
proof -
  have s: "searchable ranking_kb ''apple'' ''all'' None None"
    by code_simp
  have d: "discovered sample_fromisoformat at_one_day_later ranking_kb ''apple'' ''all'' None None
       = [annotate ''notes'' (7/2) apple_record, annotate ''notes'' (3/2) margin_note,
          annotate ''research'' (7/2) outlook_research]"
    by code_simp
  have r: "search_knowledge_base sample_fromisoformat at_one_day_later ranking_kb ''apple'' ''all'' None None
       = [annotate ''notes'' (7/2) apple_record, annotate ''research'' (7/2) outlook_research,
          annotate ''notes'' (3/2) margin_note]"
    by code_simp
  have l: "\<forall>p. load_data (read_only ranking_kb) p = load_data ranking_kb p"
    by (simp add: load_data_def read_only_def)
  have b: "same_bonus sample_fromisoformat at_one_day_later an_hour_after ranking_kb"
    unfolding same_bonus_def
  proof (intro allI)
    fix p k
    show "list_all (\<lambda>item. recency_bonus sample_fromisoformat (an_hour_after k) item
                           = recency_bonus sample_fromisoformat (at_one_day_later k) item)
            (load_data ranking_kb p)"
      by (cases p)
        (simp_all add: ranking_kb_def empty_kb_def empty_file_def load_data_def recency_bonus_def
          created_at_text_def sample_fromisoformat_def apple_record_def margin_note_def
          outlook_research_def stamped_def an_hour_after_def at_one_day_later_def
          one_day_later_def microseconds_per_day_def)
  qed
  from search_sorted_stable [of sample_fromisoformat at_one_day_later ranking_kb "''apple''"
      "''all''" None None "read_only ranking_kb" an_hour_after] s l b
  have "sorted_wrt (\<lambda>a b. relevance_score b \<le> relevance_score a)
       (search_knowledge_base sample_fromisoformat at_one_day_later ranking_kb ''apple'' ''all'' None None)
   \<and> mset (search_knowledge_base sample_fromisoformat at_one_day_later ranking_kb ''apple'' ''all'' None None)
       = mset (discovered sample_fromisoformat at_one_day_later ranking_kb ''apple'' ''all'' None None)
   \<and> search_knowledge_base sample_fromisoformat an_hour_after (read_only ranking_kb) ''apple'' ''all''
         None None
       = search_knowledge_base sample_fromisoformat at_one_day_later ranking_kb ''apple'' ''all'' None None"
    by simp
  with s d r b show ?thesis by blast
qed

section \<open>Which records a search returns\<close>

lemma lower_upper_char: "lower_char (upper_char c) = lower_char c"
  by (simp add: lower_char_def upper_char_def upper_letters_def lower_letters_def)

lemma upper_lower_char: "upper_char (lower_char c) = upper_char c"
  by (simp add: lower_char_def upper_char_def upper_letters_def lower_letters_def)

lemma lower_upper: "lower (upper s) = lower s"
  by (simp add: lower_def upper_def lower_upper_char)

lemma upper_lower: "upper (lower s) = upper s"
  by (simp add: lower_def upper_def upper_lower_char)

lemma upper_eq_iff: "upper a = upper b \<longleftrightarrow> lower a = lower b"
  by (metis lower_upper upper_lower)


lemma get_lower_text_ok: "text_ok item key \<Longrightarrow> get_lower item key = Inr (field_text item key)"
  by (auto simp: text_ok_def get_lower_def field_text_def lower_def split: option.splits json.splits)

lemma each_str_strings:
  "list_all (\<lambda>x. case x of JStr s \<Rightarrow> True | _ \<Rightarrow> False) xs
   \<Longrightarrow> each_str f xs = Inr (map f (concat (map (\<lambda>x. case x of JStr s \<Rightarrow> [s] | _ \<Rightarrow> []) xs)))"
  by (induction f xs rule: each_str.induct) (auto simp: bind_err_def)

lemma get_each_strings_ok:
  "strings_ok item key \<Longrightarrow> get_each f item key = Inr (map f (record_strings item key))"
  by (auto simp: strings_ok_def get_each_def record_strings_def each_str_strings
      split: option.splits json.splits)

lemma ticker_in_iff: "upper t \<in> upper ` set xs \<longleftrightarrow> (\<exists>x \<in> set xs. lower x = lower t)"
proof -
  have "upper t \<in> upper ` set xs \<longleftrightarrow> (\<exists>x \<in> set xs. upper x = upper t)"
    unfolding image_iff by (rule bex_cong) (auto intro: sym)
  then show ?thesis
    by (simp add: upper_eq_iff)
qed

lemma tag_in_iff:
  "list_ex (\<lambda>tag. tag \<in> lower ` set xs) (map lower ts)
   \<longleftrightarrow> (\<exists>tag \<in> set ts. \<exists>x \<in> set xs. lower x = lower tag)"
proof -
  have "\<And>tag. lower tag \<in> lower ` set xs \<longleftrightarrow> (\<exists>x \<in> set xs. lower x = lower tag)"
    unfolding image_iff by (rule bex_cong) (auto intro: sym)
  then show ?thesis
    by (simp add: list_ex_iff)
qed

lemma matches_search_well_typed:
  assumes "well_typed item"
  shows "matches_search item query ticker tags = Inr (matches_spec item query ticker tags)"
proof -
  from assms have t: "get_lower item ''title'' = Inr (field_text item ''title'')"
    and c: "get_lower item ''content'' = Inr (field_text item ''content'')"
    and s: "get_lower item ''summary'' = Inr (field_text item ''summary'')"
    and k: "get_each upper item ''related_tickers'' = Inr (map upper (record_strings item ''related_tickers''))"
    and g: "get_each lower item ''tags'' = Inr (map lower (record_strings item ''tags''))"
    by (simp_all add: well_typed_def get_lower_text_ok get_each_strings_ok)
  show ?thesis
    unfolding matches_search_def matches_spec_def Let_def
    by (simp add: t c s k g bind_err_def ticker_in_iff tag_in_iff split: option.splits)
qed

text \<open>
  C3. The claim: a stored record is among the results of a search if and only if it
  satisfies \<open>matches_spec\<close>. On records whose fields are strings where they are present the
  predicate of the code is that one (\<open>matches_search_well_typed\<close>). An article added
  without content holds \<^verbatim>\<open>None\<close> there: \<^verbatim>\<open>_matches_search\<close> raises on it, the search returns the
  empty list, and the note that satisfies the predicate is not among the results.
\<close>

theorem search_empty_after_article_without_content:
  "(case scenario_kb of
      Inl e \<Rightarrow> False
    | Inr (article_id, fs) \<Rightarrow>
        load_data fs notes_file = [apple_q4_note]
        \<and> load_data fs articles_file = [tech_outlook_article]
        \<and> matches_spec apple_q4_note ''Apple'' (Some ''AAPL'') None
        \<and> matches_search tech_outlook_article ''Apple'' (Some ''AAPL'') None = Inl AttributeError
        \<and> search_knowledge_base sample_fromisoformat at_one_day_later fs ''Apple'' ''all''
             (Some ''AAPL'') None = [])"
  by code_simp

section \<open>A collection that cannot be loaded\<close>

text \<open>
  C10. When loading a collection fails (the file is missing, unreadable or corrupt) the
  load gives the empty list, and an update or a delete on that collection returns false
  and leaves every file as it was: the file that could not be read is not written.
\<close>

theorem load_failure_no_write:
  assumes "stored (fs file_path) = None"
    and "collection_file item_type = Some file_path"
  shows "load_data fs file_path = []
       \<and> update_item fs now item_id updates item_type = (False, fs)
       \<and> delete_item fs item_id item_type = (False, fs)"
  using assms by (simp add: load_data_def update_item_def delete_item_def)

theorem load_failure_no_write_witness:
  "stored (unreadable_notes_kb notes_file) = None
   \<and> load_data unreadable_notes_kb notes_file = []
   \<and> update_item unreadable_notes_kb ''2024-06-01T09:00:00'' ''n1'' [(''title'', JStr ''x'')] ''notes''
       = (False, unreadable_notes_kb)
   \<and> delete_item unreadable_notes_kb ''n1'' ''notes'' = (False, unreadable_notes_kb)"
proof -
  have s: "stored (unreadable_notes_kb notes_file) = None"
    by (simp add: unreadable_notes_kb_def)
  have c: "collection_file ''notes'' = Some notes_file"
    by (simp add: collection_file_def)
  from load_failure_no_write [of unreadable_notes_kb notes_file "''notes''"
      "''2024-06-01T09:00:00''" "''n1''" "[(''title'', JStr ''x'')]"] s c
  show ?thesis by simp
qed

section \<open>Looking a record up\<close>

lemma first_with_id_find:
  "list_all has_id items \<Longrightarrow> first_with_id item_id items = Inr (find (id_is item_id) items)"
  by (induction items) (auto simp: has_id_def id_is_def)

lemma first_with_id_Some:
  "first_with_id item_id items = Inr (Some item) \<Longrightarrow> item \<in> set items \<and> id_is item_id item"
  by (induction items) (auto simp: id_is_def split: option.splits if_splits)

lemma find_app:
  "find P (xs @ ys) = (case find P xs of None \<Rightarrow> find P ys | Some x \<Rightarrow> Some x)"
  by (induction xs) auto

lemma get_item_Some:
  assumes "get_item fs item_id item_type = Some item"
  shows "\<exists>p. item \<in> set (load_data fs p) \<and> id_is item_id item"
proof -
  from assms have
    "first_with_id item_id (load_data fs notes_file) = Inr (Some item)
     \<or> first_with_id item_id (load_data fs articles_file) = Inr (Some item)
     \<or> first_with_id item_id (load_data fs research_file) = Inr (Some item)"
    by (auto simp: get_item_def get_from_def bind_err_def split: sum.splits option.splits if_splits)
  then show ?thesis
    by (blast dest: first_with_id_Some)
qed

text \<open>
  C6. In a store where every record has an \<^verbatim>\<open>id\<close>, \<^verbatim>\<open>get_item\<close> with a collection name searches
  that collection only and returns its first record with the id; with the name omitted
  it returns the first such record of the notes, then the articles, then the research
  entries. In every store it returns none for a name that is no collection, and none
  whenever no collection holds a record with that id.
\<close>

theorem get_item_first_match:
  "((\<forall>p. list_all has_id (load_data fs p))
      \<longrightarrow> get_item fs item_id None
            = find (id_is item_id)
                (load_data fs notes_file @ load_data fs articles_file @ load_data fs research_file)
        \<and> (\<forall>p. collection_file item_type = Some p
               \<longrightarrow> get_item fs item_id (Some item_type) = find (id_is item_id) (load_data fs p)))
   \<and> (collection_file item_type = None \<longrightarrow> get_item fs item_id (Some item_type) = None)
   \<and> ((\<forall>p. \<forall>item \<in> set (load_data fs p). \<not> id_is item_id item)
          \<longrightarrow> get_item fs item_id kind = None)"
proof (intro conjI allI impI)
  assume w: "\<forall>p. list_all has_id (load_data fs p)"
  note f = first_with_id_find [OF w [rule_format]]
  show "get_item fs item_id None
           = find (id_is item_id)
               (load_data fs notes_file @ load_data fs articles_file @ load_data fs research_file)"
    by (simp add: get_item_def get_from_def f bind_err_def find_app split: option.splits)
  show "get_item fs item_id (Some item_type) = find (id_is item_id) (load_data fs p)"
    if "collection_file item_type = Some p" for p
    using that
    by (auto simp: get_item_def get_from_def f bind_err_def collection_file_def
        split: option.splits if_splits)
next
  show "get_item fs item_id (Some item_type) = None" if "collection_file item_type = None"
    using that
    by (auto simp: get_item_def get_from_def bind_err_def collection_file_def split: if_splits)
next
  show "get_item fs item_id kind = None"
    if "\<forall>p. \<forall>item \<in> set (load_data fs p). \<not> id_is item_id item"
  proof (cases "get_item fs item_id kind")
    case None
    then show ?thesis .
  next
    case (Some item)
    from get_item_Some [OF this] that show ?thesis by blast
  qed
qed

theorem get_item_first_match_witness:
  "(\<forall>p. list_all has_id (load_data duplicate_id_kb p))
   \<and> get_item duplicate_id_kb ''n1'' None = Some apple_record
   \<and> get_item duplicate_id_kb ''n1'' (Some ''research'') = Some shadowed_research
   \<and> get_item duplicate_id_kb ''n1'' (Some ''articles'') = None
   \<and> get_item duplicate_id_kb ''n1'' (Some ''archive'') = None"
proof -
  have w: "\<forall>p. list_all has_id (load_data duplicate_id_kb p)"
  proof
    fix p
    show "list_all has_id (load_data duplicate_id_kb p)"
      by (cases p)
        (simp_all add: duplicate_id_kb_def ranking_kb_def empty_kb_def empty_file_def load_data_def
          has_id_def apple_record_def margin_note_def outlook_research_def shadowed_research_def
          stamped_def)
  qed
  have f: "find (id_is ''n1'')
             (load_data duplicate_id_kb notes_file @ load_data duplicate_id_kb articles_file
              @ load_data duplicate_id_kb research_file) = Some apple_record"
    by code_simp
  have g: "find (id_is ''n1'') (load_data duplicate_id_kb research_file) = Some shadowed_research"
    by code_simp
  have c: "collection_file ''research'' = Some research_file"
    by (simp add: collection_file_def)
  have a: "get_item duplicate_id_kb ''n1'' (Some ''articles'') = None"
    by code_simp
  have u: "get_item duplicate_id_kb ''n1'' (Some ''archive'') = None"
    by code_simp
  from get_item_first_match [of duplicate_id_kb "''n1''" "''research''"] f g c a u w
  show ?thesis by simp
qed

section \<open>Deleting\<close>

lemma without_id_filter:
  "list_all has_id items \<Longrightarrow> without_id item_id items = Inr (without item_id items)"
  by (induction items) (auto simp: has_id_def id_is_def bind_err_def without_def)

lemma length_without:
  "length (without item_id items) < length items \<longleftrightarrow> list_ex (id_is item_id) items"
proof (cases "list_ex (id_is item_id) items")
  case True
  then obtain x where "x \<in> set items" "id_is item_id x"
    by (auto simp: list_ex_iff)
  then have "length (without item_id items) < length items"
    unfolding without_def by (intro length_filter_less) auto
  with True show ?thesis by simp
next
  case False
  then have "without item_id items = items"
    by (simp add: without_def list_ex_iff)
  with False show ?thesis by simp
qed

lemma has_id_without: "list_all has_id items \<Longrightarrow> list_all has_id (without item_id items)"
  by (simp add: without_def list_all_iff)

lemma absent_without: "\<not> list_ex (id_is item_id) (without item_id items)"
  by (simp add: without_def list_ex_iff)

lemma delete_item_eq:
  assumes "collection_file item_type = Some p" and "list_all has_id (load_data fs p)"
  shows "delete_item fs item_id item_type =
           (if list_ex (id_is item_id) (load_data fs p)
            then (if writable (fs p)
                  then (True, fs(p := (fs p)\<lparr>stored := Some (without item_id (load_data fs p))\<rparr>))
                  else (False, if tears (fs p) then fs(p := (fs p)\<lparr>stored := None\<rparr>) else fs))
            else (False, fs))"
  using assms
  by (simp add: delete_item_def Let_def without_id_filter length_without save_data_def)

lemma load_data_upd:
  "load_data (fs(p := f\<lparr>stored := Some items\<rparr>)) q = (if q = p then items else load_data fs q)"
  by (simp add: load_data_def)

lemma load_data_torn:
  "load_data (fs(p := f\<lparr>stored := None\<rparr>)) q = (if q = p then [] else load_data fs q)"
  by (simp add: load_data_def)

lemma collection_file_cases:
  "collection_file item_type = Some p \<Longrightarrow>
     (item_type = ''notes'' \<and> p = notes_file) \<or> (item_type = ''articles'' \<and> p = articles_file)
     \<or> (item_type = ''research'' \<and> p = research_file)"
  by (auto simp: collection_file_def split: if_splits)

lemma get_all_items_collection:
  "collection_file item_type = Some p \<Longrightarrow> get_all_items fs item_type = load_data fs p"
  by (auto simp: get_all_items_def dest!: collection_file_cases)

text \<open>
  C7, as stated: \<^verbatim>\<open>delete_item\<close> returns true if and only if a record with the id was in
  the named collection. It does not when the write fails: \<^verbatim>\<open>_save_data\<close> raises,
  \<^verbatim>\<open>delete_item\<close> catches the exception and returns false. When the open is refused the
  record stays; when the write fails after the open, the file is left truncated and
  every note is lost, though \<^verbatim>\<open>delete_item\<close> returned false.
\<close>

theorem delete_item_unwritable_counterexample:
  "list_ex (id_is ''n1'') (load_data (read_only ranking_kb) notes_file)
   \<and> \<not> fst (delete_item (read_only ranking_kb) ''n1'' ''notes'')
   \<and> list_ex (id_is ''n1'') (get_all_items (snd (delete_item (read_only ranking_kb) ''n1'' ''notes'')) ''all'')
   \<and> load_data (failing_disk ranking_kb) notes_file = [apple_record, margin_note]
   \<and> \<not> fst (delete_item (failing_disk ranking_kb) ''n1'' ''notes'')
   \<and> load_data (snd (delete_item (failing_disk ranking_kb) ''n1'' ''notes'')) notes_file = []"
  by code_simp

text \<open>
  C7, amended. For every id and every collection name, in a store whose records carry an
  \<^verbatim>\<open>id\<close>: when the file of the collection can be written, \<^verbatim>\<open>delete_item\<close> returns true if and
  only if a record with that id was in the collection; the file then holds the other
  records in their order and the other files are as they were; a second delete of the id
  returns false and changes nothing; no record with the id is in a later listing of the
  collection, and the listing of all collections is the old one without those records.
  When the write fails, \<^verbatim>\<open>delete_item\<close> returns false whether or not a record had the id.
  The store is then unchanged if no record had the id or the open was refused; if a
  record had the id and the write failed after the open, the file is truncated and no
  longer loads, so the collection has lost all its records.
\<close>

theorem delete_item_when_writable:
  assumes "collection_file item_type = Some p" and "list_all has_id (load_data fs p)"
  shows "(writable (fs p) \<longrightarrow>
            fst (delete_item fs item_id item_type) = list_ex (id_is item_id) (load_data fs p)
          \<and> load_data (snd (delete_item fs item_id item_type)) p = without item_id (load_data fs p)
          \<and> (\<forall>q. q \<noteq> p \<longrightarrow> snd (delete_item fs item_id item_type) q = fs q)
          \<and> delete_item (snd (delete_item fs item_id item_type)) item_id item_type
              = (False, snd (delete_item fs item_id item_type))
          \<and> \<not> list_ex (id_is item_id) (get_all_items (snd (delete_item fs item_id item_type)) item_type)
          \<and> get_all_items (snd (delete_item fs item_id item_type)) ''all''
              = concat (map (\<lambda>q. if q = p then without item_id (load_data fs q) else load_data fs q)
                  [notes_file, articles_file, research_file]))
       \<and> (\<not> writable (fs p) \<longrightarrow>
            delete_item fs item_id item_type
              = (False, if list_ex (id_is item_id) (load_data fs p) \<and> tears (fs p)
                        then fs(p := (fs p)\<lparr>stored := None\<rparr>) else fs)
          \<and> load_data (snd (delete_item fs item_id item_type)) p
              = (if list_ex (id_is item_id) (load_data fs p) \<and> tears (fs p)
                 then [] else load_data fs p))"
proof (intro conjI impI)
  assume n: "\<not> writable (fs p)"
  then show "delete_item fs item_id item_type
              = (False, if list_ex (id_is item_id) (load_data fs p) \<and> tears (fs p)
                        then fs(p := (fs p)\<lparr>stored := None\<rparr>) else fs)"
    by (simp add: delete_item_eq [OF assms])
  from n show "load_data (snd (delete_item fs item_id item_type)) p
              = (if list_ex (id_is item_id) (load_data fs p) \<and> tears (fs p)
                 then [] else load_data fs p)"
    by (simp add: delete_item_eq [OF assms] load_data_torn)
next
  assume w: "writable (fs p)"
  define fs' where "fs' = snd (delete_item fs item_id item_type)"
  have l: "load_data fs' q = (if q = p then without item_id (load_data fs p) else load_data fs q)" for q
  proof (cases "list_ex (id_is item_id) (load_data fs p)")
    case True
    then show ?thesis
      by (simp add: fs'_def delete_item_eq [OF assms] w load_data_upd)
  next
    case False
    then have "without item_id (load_data fs p) = load_data fs p"
      by (simp add: without_def list_ex_iff)
    with False show ?thesis
      by (simp add: fs'_def delete_item_eq [OF assms])
  qed
  have w': "writable (fs' p)"
    using w by (simp add: fs'_def delete_item_eq [OF assms])
  have i: "list_all has_id (load_data fs' p)"
    using assms(2) by (simp add: l has_id_without)
  show "fst (delete_item fs item_id item_type) = list_ex (id_is item_id) (load_data fs p)"
    using w by (simp add: delete_item_eq [OF assms])
  show "load_data (snd (delete_item fs item_id item_type)) p = without item_id (load_data fs p)"
    using l [of p] by (simp add: fs'_def)
  show "\<forall>q. q \<noteq> p \<longrightarrow> snd (delete_item fs item_id item_type) q = fs q"
    by (simp add: delete_item_eq [OF assms])
  show "delete_item (snd (delete_item fs item_id item_type)) item_id item_type
              = (False, snd (delete_item fs item_id item_type))"
    using delete_item_eq [OF assms(1) i, of item_id] l [of p]
    by (simp add: absent_without fs'_def)
  show "\<not> list_ex (id_is item_id) (get_all_items (snd (delete_item fs item_id item_type)) item_type)"
    using l [of p] get_all_items_collection [OF assms(1), of fs']
    by (simp add: absent_without fs'_def)
  show "get_all_items (snd (delete_item fs item_id item_type)) ''all''
              = concat (map (\<lambda>q. if q = p then without item_id (load_data fs q) else load_data fs q)
                  [notes_file, articles_file, research_file])"
    using l by (simp add: get_all_items_def fs'_def)
qed

theorem delete_item_when_writable_witness:
  "writable (ranking_kb notes_file)
   \<and> list_ex (id_is ''n1'') (load_data ranking_kb notes_file)
   \<and> fst (delete_item ranking_kb ''n1'' ''notes'')
   \<and> load_data (snd (delete_item ranking_kb ''n1'' ''notes'')) notes_file = [margin_note]
   \<and> delete_item (snd (delete_item ranking_kb ''n1'' ''notes'')) ''n1'' ''notes''
       = (False, snd (delete_item ranking_kb ''n1'' ''notes''))
   \<and> get_all_items (snd (delete_item ranking_kb ''n1'' ''notes'')) ''all''
       = [margin_note, outlook_research]
   \<and> \<not> writable (failing_disk ranking_kb notes_file)
   \<and> \<not> fst (delete_item (failing_disk ranking_kb) ''n1'' ''notes'')
   \<and> load_data (snd (delete_item (failing_disk ranking_kb) ''n1'' ''notes'')) notes_file = []"
proof -
  have c: "collection_file ''notes'' = Some notes_file"
    by (simp add: collection_file_def)
  have i': "list_all has_id (load_data (failing_disk ranking_kb) notes_file)"
    by code_simp
  have w': "\<not> writable (failing_disk ranking_kb notes_file)"
    by code_simp
  have t': "tears (failing_disk ranking_kb notes_file)"
    by code_simp
  have p': "list_ex (id_is ''n1'') (load_data (failing_disk ranking_kb) notes_file)"
    by code_simp
  from delete_item_when_writable [OF c i', of "''n1''"] w' t' p'
  have f: "\<not> fst (delete_item (failing_disk ranking_kb) ''n1'' ''notes'')
      \<and> load_data (snd (delete_item (failing_disk ranking_kb) ''n1'' ''notes'')) notes_file = []"
    by (simp add: load_data_torn)
  have i: "list_all has_id (load_data ranking_kb notes_file)"
    by code_simp
  have w: "writable (ranking_kb notes_file)"
    by code_simp
  have p: "list_ex (id_is ''n1'') (load_data ranking_kb notes_file)"
    by code_simp
  have k: "without ''n1'' (load_data ranking_kb notes_file) = [margin_note]"
    by code_simp
  have a: "get_all_items (snd (delete_item ranking_kb ''n1'' ''notes'')) ''all''
       = [margin_note, outlook_research]"
    by code_simp
  from delete_item_when_writable [OF c i, of "''n1''"] w p k a f w'
  show ?thesis by simp
qed

section \<open>Updating\<close>

lemma apply_updates_keys: "map fst (apply_updates updates item) = map fst item"
  unfolding apply_updates_def
proof (induction updates arbitrary: item)
  case Nil
  then show ?case by simp
next
  case (Cons u us)
  obtain k v where u: "u = (k, v)" by (cases u)
  have "map fst (if map_of item k \<noteq> None then AList.update k v item else item) = map fst item"
    by (auto simp: update_keys map_of_eq_None_iff)
  with Cons.IH show ?case
    by (simp add: u)
qed

lemma apply_updates_lookup:
  "map_of (apply_updates updates item) key =
     (if map_of item key = None then None
      else (case map_of (rev updates) key of Some v \<Rightarrow> Some v | None \<Rightarrow> map_of item key))"
  unfolding apply_updates_def
proof (induction updates arbitrary: item)
  case Nil
  then show ?case by simp
next
  case (Cons u us)
  obtain k v where u: "u = (k, v)" by (cases u)
  define item1 where "item1 = (if map_of item k \<noteq> None then AList.update k v item else item)"
  have d: "map_of item1 key = None \<longleftrightarrow> map_of item key = None"
    by (auto simp: item1_def update_conv')
  have l: "map_of item1 key = (if key = k \<and> map_of item k \<noteq> None then Some v else map_of item key)"
    by (auto simp: item1_def update_conv')
  have "fold (\<lambda>(key, val) it. if map_of it key \<noteq> None then AList.update key val it else it)
          (u # us) item
        = fold (\<lambda>(key, val) it. if map_of it key \<noteq> None then AList.update key val it else it)
          us item1"
    by (simp add: u item1_def)
  then show ?case
    using Cons.IH [of item1] d l
    by (auto simp: u map_add_def split: option.splits)
qed

lemma update_loop_Some:
  assumes "update_loop item_id updates now items = Inr (Some items')"
  shows "\<exists>before item after.
           items = before @ item # after \<and> id_is item_id item
         \<and> \<not> list_ex (id_is item_id) before
         \<and> items' = before @ AList.update ''updated_at'' (JStr now) (apply_updates updates item) # after"
  using assms
proof (induction items arbitrary: items')
  case Nil
  then show ?case by simp
next
  case (Cons x xs)
  show ?case
  proof (cases "id_is item_id x")
    case True
    with Cons.prems have "items' = AList.update ''updated_at'' (JStr now) (apply_updates updates x) # xs"
      by (simp add: id_is_def)
    with True show ?thesis
      by (intro exI [of _ "[]"] exI [of _ x] exI [of _ xs]) simp
  next
    case False
    with Cons.prems obtain rest where
      r: "update_loop item_id updates now xs = Inr (Some rest)" and i: "items' = x # rest"
      by (auto simp: id_is_def bind_err_def split: option.splits sum.splits if_splits)
    from Cons.IH [OF r] obtain before item after where
      "xs = before @ item # after" "id_is item_id item" "\<not> list_ex (id_is item_id) before"
      "rest = before @ AList.update ''updated_at'' (JStr now) (apply_updates updates item) # after"
      by blast
    with False i show ?thesis
      by (intro exI [of _ "x # before"] exI [of _ item] exI [of _ after]) simp
  qed
qed

lemma update_item_True:
  assumes "update_item fs now item_id updates item_type = (True, fs')"
  shows "\<exists>p items'.
           collection_file item_type = Some p
         \<and> update_loop item_id updates now (load_data fs p) = Inr (Some items')
         \<and> writable (fs p)
         \<and> fs' = fs(p := (fs p)\<lparr>stored := Some items'\<rparr>)"
  using assms
  by (auto simp: update_item_def save_data_def
      split: option.splits sum.splits if_splits prod.splits)

lemma update_item_False:
  assumes "update_item fs now item_id updates item_type = (False, fs')"
  shows "load_data fs' q = load_data fs q \<or> load_data fs' q = []"
  using assms
  by (auto simp: update_item_def save_data_def load_data_def
      split: option.splits sum.splits if_splits prod.splits)



lemma update_item_structure:
  assumes "update_item fs now item_id updates item_type = (True, fs')"
  shows "\<exists>p before item after.
           collection_file item_type = Some p
         \<and> load_data fs p = before @ item # after
         \<and> id_is item_id item \<and> \<not> list_ex (id_is item_id) before
         \<and> load_data fs' p
             = before @ AList.update ''updated_at'' (JStr now) (apply_updates updates item) # after
         \<and> (\<forall>q. q \<noteq> p \<longrightarrow> fs' q = fs q)"
proof -
  from update_item_True [OF assms] obtain p items' where
    c: "collection_file item_type = Some p"
    and u: "update_loop item_id updates now (load_data fs p) = Inr (Some items')"
    and f: "fs' = fs(p := (fs p)\<lparr>stored := Some items'\<rparr>)"
    by blast
  from update_loop_Some [OF u] obtain before item after where
    "load_data fs p = before @ item # after" "id_is item_id item"
    "\<not> list_ex (id_is item_id) before"
    "items' = before @ AList.update ''updated_at'' (JStr now) (apply_updates updates item) # after"
    by blast
  with c f show ?thesis
    by (intro exI [of _ p] exI [of _ before] exI [of _ item] exI [of _ after])
      (simp add: load_data_def)
qed




section \<open>The timestamps of a record\<close>

lemma list_all_get_all_items:
  "list_all P (get_all_items fs ''all'') \<longleftrightarrow> (\<forall>p. list_all P (load_data fs p))"
proof
  assume a: "list_all P (get_all_items fs ''all'')"
  show "\<forall>p. list_all P (load_data fs p)"
  proof
    fix p
    from a show "list_all P (load_data fs p)"
      by (cases p) (simp_all add: get_all_items_def)
  qed
next
  assume "\<forall>p. list_all P (load_data fs p)"
  then show "list_all P (get_all_items fs ''all'')"
    by (simp add: get_all_items_def)
qed

lemma load_data_saved:
  "save_data fs p items = Inr fs' \<Longrightarrow>
     \<forall>q. load_data fs' q = (if q = p then items else load_data fs q)"
  by (auto simp: save_data_def load_data_def split: if_splits)

lemma load_data_failed:
  "save_data fs p items = Inl (e, fs') \<Longrightarrow>
     e = OSError \<and> \<not> writable (fs p)
     \<and> (\<forall>q. load_data fs' q = (if q = p \<and> tears (fs p) then [] else load_data fs q))
     \<and> (\<forall>q. q \<noteq> p \<longrightarrow> fs' q = fs q)"
  by (auto simp: save_data_def load_data_def split: if_splits)

lemma add_note_fails:
  assumes "add_note fs note_id created updated title content tags related_tickers = Inl (e, fs')"
  shows "e = OSError \<and> \<not> writable (fs notes_file)
     \<and> (\<forall>q. load_data fs' q = (if q = notes_file \<and> tears (fs notes_file) then [] else load_data fs q))
     \<and> (\<forall>q. q \<noteq> notes_file \<longrightarrow> fs' q = fs q)"
  using assms
  by (auto simp: add_note_def bind_err_def Let_def split: sum.splits dest!: load_data_failed)

lemma add_article_fails:
  assumes "add_article fs article_id created updated title url summary content tags related_tickers
           = Inl (e, fs')"
  shows "e = OSError \<and> \<not> writable (fs articles_file)
     \<and> (\<forall>q. load_data fs' q
            = (if q = articles_file \<and> tears (fs articles_file) then [] else load_data fs q))
     \<and> (\<forall>q. q \<noteq> articles_file \<longrightarrow> fs' q = fs q)"
  using assms
  by (auto simp: add_article_def bind_err_def Let_def split: sum.splits dest!: load_data_failed)

lemma add_research_fails:
  assumes "add_research fs research_id created updated title content source tags related_tickers
           = Inl (e, fs')"
  shows "e = OSError \<and> \<not> writable (fs research_file)
     \<and> (\<forall>q. load_data fs' q
            = (if q = research_file \<and> tears (fs research_file) then [] else load_data fs q))
     \<and> (\<forall>q. q \<noteq> research_file \<longrightarrow> fs' q = fs q)"
  using assms
  by (auto simp: add_research_def bind_err_def Let_def split: sum.splits dest!: load_data_failed)

lemma list_all_after_failure:
  assumes "\<forall>p. list_all P (load_data fs p)"
    and "\<forall>q. load_data fs' q = (if q = f \<and> t then [] else load_data fs q)"
  shows "\<forall>p. list_all P (load_data fs' p)"
  using assms by simp

lemma add_note_loads:
  assumes "add_note fs note_id created updated title content tags related_tickers = Inr (i, fs')"
  shows "\<exists>note. map_of note ''created_at'' = Some (JStr created)
          \<and> map_of note ''updated_at'' = Some (JStr updated)
          \<and> map_of note ''id'' = Some (JStr note_id)
          \<and> (\<forall>q. load_data fs' q
                = (if q = notes_file then load_data fs notes_file @ [note] else load_data fs q))"
proof -
  define new_note where "new_note =
        [(''id'', JStr note_id), (''type'', JStr ''note''), (''title'', JStr title),
         (''content'', JStr content), (''tags'', or_empty tags),
         (''related_tickers'', or_empty related_tickers),
         (''created_at'', JStr created), (''updated_at'', JStr updated)]"
  from assms have "save_data fs notes_file (load_data fs notes_file @ [new_note]) = Inr fs'"
    by (auto simp: add_note_def bind_err_def Let_def new_note_def split: sum.splits)
  from load_data_saved [OF this] show ?thesis
    by (intro exI [of _ new_note]) (simp add: new_note_def)
qed

lemma add_article_loads:
  assumes "add_article fs article_id created updated title url summary content tags related_tickers
           = Inr (i, fs')"
  shows "\<exists>article. map_of article ''created_at'' = Some (JStr created)
          \<and> map_of article ''updated_at'' = Some (JStr updated)
          \<and> map_of article ''id'' = Some (JStr article_id)
          \<and> (\<forall>q. load_data fs' q
                = (if q = articles_file then load_data fs articles_file @ [article] else load_data fs q))"
proof -
  define article where "article =
        [(''id'', JStr article_id), (''type'', JStr ''article''), (''title'', JStr title),
         (''url'', JStr url), (''summary'', opt_str summary), (''content'', opt_str content),
         (''tags'', or_empty tags), (''related_tickers'', or_empty related_tickers),
         (''created_at'', JStr created), (''updated_at'', JStr updated)]"
  from assms have "save_data fs articles_file (load_data fs articles_file @ [article]) = Inr fs'"
    by (auto simp: add_article_def bind_err_def Let_def article_def split: sum.splits)
  from load_data_saved [OF this] show ?thesis
    by (intro exI [of _ article]) (simp add: article_def)
qed

lemma add_research_loads:
  assumes "add_research fs research_id created updated title content source tags related_tickers
           = Inr (i, fs')"
  shows "\<exists>research. map_of research ''created_at'' = Some (JStr created)
          \<and> map_of research ''updated_at'' = Some (JStr updated)
          \<and> map_of research ''id'' = Some (JStr research_id)
          \<and> (\<forall>q. load_data fs' q
                = (if q = research_file then load_data fs research_file @ [research] else load_data fs q))"
proof -
  define research where "research =
        [(''id'', JStr research_id), (''type'', JStr ''research''), (''title'', JStr title),
         (''content'', JStr content), (''source'', opt_str source), (''tags'', or_empty tags),
         (''related_tickers'', or_empty related_tickers),
         (''created_at'', JStr created), (''updated_at'', JStr updated)]"
  from assms have "save_data fs research_file (load_data fs research_file @ [research]) = Inr fs'"
    by (auto simp: add_research_def bind_err_def Let_def research_def split: sum.splits)
  from load_data_saved [OF this] show ?thesis
    by (intro exI [of _ research]) (simp add: research_def)
qed

lemma ordered_after_append:
  assumes "\<forall>p. list_all timestamps_ordered (load_data fs p)"
    and "map_of r ''created_at'' = Some (JStr created)"
    and "map_of r ''updated_at'' = Some (JStr updated)"
    and "created \<le> updated"
    and "\<forall>q. load_data fs' q = (if q = f then load_data fs f @ [r] else load_data fs q)"
  shows "\<forall>p. list_all timestamps_ordered (load_data fs' p)"
  using assms by (simp add: timestamps_ordered_def)

lemma ordered_after_update:
  assumes "timestamps_ordered item" and "created_by now item"
    and "''created_at'' \<notin> fst ` set updates"
  shows "timestamps_ordered (AList.update ''updated_at'' (JStr now) (apply_updates updates item))"
proof -
  from assms(3) have "map_of (rev updates) ''created_at'' = None"
    by (simp add: map_of_eq_None_iff)
  then have "map_of (apply_updates updates item) ''created_at'' = map_of item ''created_at''"
    by (simp add: apply_updates_lookup)
  with assms(2) show ?thesis
    by (auto simp: timestamps_ordered_def created_by_def update_conv' split: option.splits json.splits)
qed

lemma update_item_ordered:
  assumes o: "\<forall>p. list_all timestamps_ordered (load_data fs p)"
    and c: "\<forall>p. list_all (created_by now) (load_data fs p)"
    and n: "''created_at'' \<notin> fst ` set updates"
  shows "\<forall>p. list_all timestamps_ordered
           (load_data (snd (update_item fs now item_id updates item_type)) p)"
proof (cases "fst (update_item fs now item_id updates item_type)")
  case False
  then have "update_item fs now item_id updates item_type
             = (False, snd (update_item fs now item_id updates item_type))"
    by (simp add: prod_eq_iff)
  from update_item_False [OF this] o
  have "list_all timestamps_ordered
          (load_data (snd (update_item fs now item_id updates item_type)) q)" for q
    by (metis list.pred_inject(1))
  then show ?thesis by simp
next
  case True
  define fs' where "fs' = snd (update_item fs now item_id updates item_type)"
  from True have "update_item fs now item_id updates item_type = (True, fs')"
    by (simp add: prod_eq_iff fs'_def)
  from update_item_structure [OF this] obtain p before item after where
    l: "load_data fs p = before @ item # after"
    and l': "load_data fs' p
         = before @ AList.update ''updated_at'' (JStr now) (apply_updates updates item) # after"
    and f: "\<forall>q. q \<noteq> p \<longrightarrow> fs' q = fs q"
    by blast
  from o [rule_format, of p] c [rule_format, of p] l
  have b: "list_all timestamps_ordered before" and a: "list_all timestamps_ordered after"
    and i: "timestamps_ordered item" and ci: "created_by now item"
    by simp_all
  have "list_all timestamps_ordered (load_data fs' q)" for q
  proof (cases "q = p")
    case True
    with l' b a ordered_after_update [OF i ci n] show ?thesis by simp
  next
    case False
    with f have "load_data fs' q = load_data fs q"
      by (simp add: load_data_def)
    with o show ?thesis by simp
  qed
  then show ?thesis
    by (simp add: fs'_def)
qed

text \<open>
  C8, as stated: every update keeps \<^verbatim>\<open>created_at\<close> at or before \<^verbatim>\<open>updated_at\<close>. An update that
  names \<^verbatim>\<open>created_at\<close> overwrites it, here with a time after the clock reading that
  \<^verbatim>\<open>updated_at\<close> receives.
\<close>

theorem created_at_overwritten_counterexample:
  "list_all timestamps_ordered (get_all_items ranking_kb ''all'')
   \<and> fst (update_item ranking_kb ''2024-06-01T09:00:00'' ''n1'' postdate_updates ''notes'')
   \<and> \<not> list_all timestamps_ordered
         (get_all_items
            (snd (update_item ranking_kb ''2024-06-01T09:00:00'' ''n1'' postdate_updates ''notes''))
            ''all'')"
  by code_simp


text \<open>
  C8, amended. In a store where every record has \<^verbatim>\<open>created_at\<close> at or before \<^verbatim>\<open>updated_at\<close>:
  the same holds after each of the three adds, whether the add returns or raises,
  provided the second of its two clock readings is not before the first; and it holds
  after every update, successful or not, whose \<open>updates\<close> do not name \<^verbatim>\<open>created_at\<close> and whose
  clock reading is not before the \<^verbatim>\<open>created_at\<close> of a stored record.
\<close>

theorem timestamps_ordered_kept:
  assumes "list_all timestamps_ordered (get_all_items fs ''all'')"
  shows "(created \<le> updated \<longrightarrow>
            (case add_note fs new_id created updated title content tags related_tickers of
               Inl (e, fs') \<Rightarrow> list_all timestamps_ordered (get_all_items fs' ''all'')
             | Inr (i, fs') \<Rightarrow> list_all timestamps_ordered (get_all_items fs' ''all''))
          \<and> (case add_article fs new_id created updated title url summary opt_content tags related_tickers of
               Inl (e, fs') \<Rightarrow> list_all timestamps_ordered (get_all_items fs' ''all'')
             | Inr (i, fs') \<Rightarrow> list_all timestamps_ordered (get_all_items fs' ''all''))
          \<and> (case add_research fs new_id created updated title content source tags related_tickers of
               Inl (e, fs') \<Rightarrow> list_all timestamps_ordered (get_all_items fs' ''all'')
             | Inr (i, fs') \<Rightarrow> list_all timestamps_ordered (get_all_items fs' ''all'')))
       \<and> (''created_at'' \<notin> fst ` set updates
            \<and> list_all (created_by now) (get_all_items fs ''all'')
          \<longrightarrow> list_all timestamps_ordered
                (get_all_items (snd (update_item fs now item_id updates item_type)) ''all''))"
proof (intro conjI impI)
  note o = assms [unfolded list_all_get_all_items]
  assume t: "created \<le> updated"
  show "case add_note fs new_id created updated title content tags related_tickers of
               Inl (e, fs') \<Rightarrow> list_all timestamps_ordered (get_all_items fs' ''all'')
             | Inr (i, fs') \<Rightarrow> list_all timestamps_ordered (get_all_items fs' ''all'')"
  proof (cases "add_note fs new_id created updated title content tags related_tickers")
    case (Inl r)
    obtain e fs' where r: "r = (e, fs')" by (cases r)
    from add_note_fails [OF Inl [unfolded r]]
    have "\<forall>q. load_data fs' q = (if q = notes_file \<and> tears (fs notes_file) then [] else load_data fs q)"
      by blast
    from list_all_after_failure [OF o this] show ?thesis
      by (simp add: Inl r list_all_get_all_items)
  next
    case (Inr r)
    obtain i fs' where r: "r = (i, fs')" by (cases r)
    from add_note_loads [OF Inr [unfolded r]] obtain new_note where
      "map_of new_note ''created_at'' = Some (JStr created)"
      "map_of new_note ''updated_at'' = Some (JStr updated)"
      "\<forall>q. load_data fs' q
         = (if q = notes_file then load_data fs notes_file @ [new_note] else load_data fs q)"
      by blast
    from ordered_after_append [OF o this(1,2) t this(3)] show ?thesis
      by (simp add: Inr r list_all_get_all_items)
  qed
  show "case add_article fs new_id created updated title url summary opt_content tags related_tickers of
               Inl (e, fs') \<Rightarrow> list_all timestamps_ordered (get_all_items fs' ''all'')
             | Inr (i, fs') \<Rightarrow> list_all timestamps_ordered (get_all_items fs' ''all'')"
  proof (cases "add_article fs new_id created updated title url summary opt_content tags related_tickers")
    case (Inl r)
    obtain e fs' where r: "r = (e, fs')" by (cases r)
    from add_article_fails [OF Inl [unfolded r]]
    have "\<forall>q. load_data fs' q = (if q = articles_file \<and> tears (fs articles_file) then [] else load_data fs q)"
      by blast
    from list_all_after_failure [OF o this] show ?thesis
      by (simp add: Inl r list_all_get_all_items)
  next
    case (Inr r)
    obtain i fs' where r: "r = (i, fs')" by (cases r)
    from add_article_loads [OF Inr [unfolded r]] obtain article where
      "map_of article ''created_at'' = Some (JStr created)"
      "map_of article ''updated_at'' = Some (JStr updated)"
      "\<forall>q. load_data fs' q
         = (if q = articles_file then load_data fs articles_file @ [article] else load_data fs q)"
      by blast
    from ordered_after_append [OF o this(1,2) t this(3)] show ?thesis
      by (simp add: Inr r list_all_get_all_items)
  qed
  show "case add_research fs new_id created updated title content source tags related_tickers of
               Inl (e, fs') \<Rightarrow> list_all timestamps_ordered (get_all_items fs' ''all'')
             | Inr (i, fs') \<Rightarrow> list_all timestamps_ordered (get_all_items fs' ''all'')"
  proof (cases "add_research fs new_id created updated title content source tags related_tickers")
    case (Inl r)
    obtain e fs' where r: "r = (e, fs')" by (cases r)
    from add_research_fails [OF Inl [unfolded r]]
    have "\<forall>q. load_data fs' q = (if q = research_file \<and> tears (fs research_file) then [] else load_data fs q)"
      by blast
    from list_all_after_failure [OF o this] show ?thesis
      by (simp add: Inl r list_all_get_all_items)
  next
    case (Inr r)
    obtain i fs' where r: "r = (i, fs')" by (cases r)
    from add_research_loads [OF Inr [unfolded r]] obtain research where
      "map_of research ''created_at'' = Some (JStr created)"
      "map_of research ''updated_at'' = Some (JStr updated)"
      "\<forall>q. load_data fs' q
         = (if q = research_file then load_data fs research_file @ [research] else load_data fs q)"
      by blast
    from ordered_after_append [OF o this(1,2) t this(3)] show ?thesis
      by (simp add: Inr r list_all_get_all_items)
  qed
next
  note o = assms [unfolded list_all_get_all_items]
  assume "''created_at'' \<notin> fst ` set updates
            \<and> list_all (created_by now) (get_all_items fs ''all'')"
  then have n: "''created_at'' \<notin> fst ` set updates"
    and c: "\<forall>p. list_all (created_by now) (load_data fs p)"
    by (simp_all add: list_all_get_all_items)
  from update_item_ordered [OF o c n]
  show "list_all timestamps_ordered
          (get_all_items (snd (update_item fs now item_id updates item_type)) ''all'')"
    by (simp add: list_all_get_all_items)
qed

theorem timestamps_ordered_kept_witness:
  "list_all timestamps_ordered (get_all_items ranking_kb ''all'')
   \<and> ''2024-06-01T09:00:00'' \<le> ''2024-06-01T09:00:01''
   \<and> ''created_at'' \<notin> fst ` set retag_updates
   \<and> list_all (created_by ''2024-06-01T09:00:00'') (get_all_items ranking_kb ''all'')
   \<and> list_all timestamps_ordered (get_all_items retagged_kb ''all'')
   \<and> (case add_note ranking_kb ''n3'' ''2024-06-01T09:00:00'' ''2024-06-01T09:00:01''
              ''Later note'' ''text'' None None of
         Inl e \<Rightarrow> False
       | Inr (i, fs') \<Rightarrow> list_all timestamps_ordered (get_all_items fs' ''all''))"
proof -
  have o: "list_all timestamps_ordered (get_all_items ranking_kb ''all'')"
    by code_simp
  have t: "''2024-06-01T09:00:00'' \<le> ''2024-06-01T09:00:01''"
    by code_simp
  have n: "''created_at'' \<notin> fst ` set retag_updates"
    by code_simp
  have c: "list_all (created_by ''2024-06-01T09:00:00'') (get_all_items ranking_kb ''all'')"
    by code_simp
  have a: "\<not> isl (add_note ranking_kb ''n3'' ''2024-06-01T09:00:00'' ''2024-06-01T09:00:01''
              ''Later note'' ''text'' None None)"
    by code_simp
  from timestamps_ordered_kept [OF o, of "''2024-06-01T09:00:00''" "''2024-06-01T09:00:01''"
      "''n3''" "''Later note''" "''text''" None None _ _ _ _ retag_updates
      "''2024-06-01T09:00:00''" "''n1''" "''notes''"] o t n c a
  show ?thesis
    by (auto simp: retagged_kb_def split: sum.splits)
qed

section \<open>Adding records\<close>

lemma save_data_writable:
  "writable (fs p) \<Longrightarrow> \<exists>fs'. save_data fs p items = Inr fs' \<and> (\<forall>q. q \<noteq> p \<longrightarrow> fs' q = fs q)"
  by (simp add: save_data_def)

lemma save_data_unwritable:
  "\<not> writable (fs p) \<Longrightarrow>
     \<exists>fs'. save_data fs p items = Inl (OSError, fs')
       \<and> load_data fs' p = (if tears (fs p) then [] else load_data fs p)
       \<and> (\<forall>q. q \<noteq> p \<longrightarrow> fs' q = fs q)"
  by (simp add: save_data_def load_data_def)

lemma add_note_writable:
  assumes "writable (fs notes_file)"
  shows "\<exists>fs' r. add_note fs note_id created updated title content tags related_tickers
                   = Inr (note_id, fs')
          \<and> load_data fs' notes_file = load_data fs notes_file @ [r]
          \<and> map_of r ''id'' = Some (JStr note_id)
          \<and> map_of r ''title'' = Some (JStr title)
          \<and> map_of r ''content'' = Some (JStr content)
          \<and> (\<forall>q. q \<noteq> notes_file \<longrightarrow> fs' q = fs q)"
proof -
  define r where "r =
        [(''id'', JStr note_id), (''type'', JStr ''note''), (''title'', JStr title),
         (''content'', JStr content), (''tags'', or_empty tags),
         (''related_tickers'', or_empty related_tickers),
         (''created_at'', JStr created), (''updated_at'', JStr updated)]"
  from assms save_data_writable [of fs notes_file "load_data fs notes_file @ [r]"] obtain fs' where
    s: "save_data fs notes_file (load_data fs notes_file @ [r]) = Inr fs'"
    and f: "\<forall>q. q \<noteq> notes_file \<longrightarrow> fs' q = fs q"
    by blast
  from s have a: "add_note fs note_id created updated title content tags related_tickers
                  = Inr (note_id, fs')"
    by (simp add: add_note_def bind_err_def Let_def r_def)
  from load_data_saved [OF s] have l: "load_data fs' notes_file = load_data fs notes_file @ [r]"
    by simp
  from a l f show ?thesis
    by (intro exI [of _ fs'] exI [of _ r]) (simp add: r_def)
qed

lemma add_article_writable:
  assumes "writable (fs articles_file)"
  shows "\<exists>fs' r. add_article fs article_id created updated title url summary content tags
                     related_tickers = Inr (article_id, fs')
          \<and> load_data fs' articles_file = load_data fs articles_file @ [r]
          \<and> map_of r ''id'' = Some (JStr article_id)
          \<and> map_of r ''title'' = Some (JStr title)
          \<and> map_of r ''url'' = Some (JStr url)
          \<and> (\<forall>q. q \<noteq> articles_file \<longrightarrow> fs' q = fs q)"
proof -
  define r where "r =
        [(''id'', JStr article_id), (''type'', JStr ''article''), (''title'', JStr title),
         (''url'', JStr url), (''summary'', opt_str summary), (''content'', opt_str content),
         (''tags'', or_empty tags), (''related_tickers'', or_empty related_tickers),
         (''created_at'', JStr created), (''updated_at'', JStr updated)]"
  from assms save_data_writable [of fs articles_file "load_data fs articles_file @ [r]"] obtain fs' where
    s: "save_data fs articles_file (load_data fs articles_file @ [r]) = Inr fs'"
    and f: "\<forall>q. q \<noteq> articles_file \<longrightarrow> fs' q = fs q"
    by blast
  from s have a: "add_article fs article_id created updated title url summary content tags
                    related_tickers = Inr (article_id, fs')"
    by (simp add: add_article_def bind_err_def Let_def r_def)
  from load_data_saved [OF s]
  have l: "load_data fs' articles_file = load_data fs articles_file @ [r]"
    by simp
  from a l f show ?thesis
    by (intro exI [of _ fs'] exI [of _ r]) (simp add: r_def)
qed

lemma add_research_writable:
  assumes "writable (fs research_file)"
  shows "\<exists>fs' r. add_research fs research_id created updated title content source tags
                     related_tickers = Inr (research_id, fs')
          \<and> load_data fs' research_file = load_data fs research_file @ [r]
          \<and> map_of r ''id'' = Some (JStr research_id)
          \<and> map_of r ''title'' = Some (JStr title)
          \<and> map_of r ''content'' = Some (JStr content)
          \<and> (\<forall>q. q \<noteq> research_file \<longrightarrow> fs' q = fs q)"
proof -
  define r where "r =
        [(''id'', JStr research_id), (''type'', JStr ''research''), (''title'', JStr title),
         (''content'', JStr content), (''source'', opt_str source), (''tags'', or_empty tags),
         (''related_tickers'', or_empty related_tickers),
         (''created_at'', JStr created), (''updated_at'', JStr updated)]"
  from assms save_data_writable [of fs research_file "load_data fs research_file @ [r]"] obtain fs' where
    s: "save_data fs research_file (load_data fs research_file @ [r]) = Inr fs'"
    and f: "\<forall>q. q \<noteq> research_file \<longrightarrow> fs' q = fs q"
    by blast
  from s have a: "add_research fs research_id created updated title content source tags
                    related_tickers = Inr (research_id, fs')"
    by (simp add: add_research_def bind_err_def Let_def r_def)
  from load_data_saved [OF s]
  have l: "load_data fs' research_file = load_data fs research_file @ [r]"
    by simp
  from a l f show ?thesis
    by (intro exI [of _ fs'] exI [of _ r]) (simp add: r_def)
qed

text \<open>
  C1, as stated: an add with an empty title, or without the field its kind requires,
  fails with a validation error and creates no record. The three adds check nothing: with
  an empty title and an empty content (or URL) each returns the new id, and the record is
  in the file.
\<close>

theorem add_empty_fields_counterexample:
  "(case add_note empty_kb ''n-1'' ''2024-05-01T12:00:00'' ''2024-05-01T12:00:00'' [] [] None None of
      Inl e \<Rightarrow> False
    | Inr (i, fs) \<Rightarrow> i = ''n-1''
        \<and> map (title_and ''content'') (load_data fs notes_file) = [[Some (JStr []), Some (JStr [])]])
   \<and> (case add_article empty_kb ''a-1'' ''2024-05-01T12:00:00'' ''2024-05-01T12:00:00'' [] []
             None None None None of
      Inl e \<Rightarrow> False
    | Inr (i, fs) \<Rightarrow> i = ''a-1''
        \<and> map (title_and ''url'') (load_data fs articles_file) = [[Some (JStr []), Some (JStr [])]])
   \<and> (case add_research empty_kb ''r-1'' ''2024-05-01T12:00:00'' ''2024-05-01T12:00:00'' [] []
             None None None of
      Inl e \<Rightarrow> False
    | Inr (i, fs) \<Rightarrow> i = ''r-1''
        \<and> map (title_and ''content'') (load_data fs research_file) = [[Some (JStr []), Some (JStr [])]])"
  by code_simp

text \<open>
  C1, amended. The adds validate nothing. For every title and every content or URL, the
  empty string included: when the file of the collection can be written, the add returns
  the new id, the file holds the old records followed by one record with that id, title
  and content (or URL), and the other files are as they were; when the file cannot be
  written the add fails with the error of the write, which goes to the caller, and no
  record is created: the file holds what it held, or nothing that loads when the write
  failed after the open.
\<close>

theorem add_never_validates:
  "(if writable (fs notes_file)
    then \<exists>fs' r. add_note fs new_id created updated title content tags related_tickers
                    = Inr (new_id, fs')
          \<and> load_data fs' notes_file = load_data fs notes_file @ [r]
          \<and> map_of r ''id'' = Some (JStr new_id)
          \<and> map_of r ''title'' = Some (JStr title)
          \<and> map_of r ''content'' = Some (JStr content)
          \<and> (\<forall>q. q \<noteq> notes_file \<longrightarrow> fs' q = fs q)
    else \<exists>fs'. add_note fs new_id created updated title content tags related_tickers
                    = Inl (OSError, fs')
          \<and> load_data fs' notes_file = (if tears (fs notes_file) then [] else load_data fs notes_file)
          \<and> (\<forall>q. q \<noteq> notes_file \<longrightarrow> fs' q = fs q))
   \<and> (if writable (fs articles_file)
    then \<exists>fs' r. add_article fs new_id created updated title url summary opt_content tags
                    related_tickers = Inr (new_id, fs')
          \<and> load_data fs' articles_file = load_data fs articles_file @ [r]
          \<and> map_of r ''id'' = Some (JStr new_id)
          \<and> map_of r ''title'' = Some (JStr title)
          \<and> map_of r ''url'' = Some (JStr url)
          \<and> (\<forall>q. q \<noteq> articles_file \<longrightarrow> fs' q = fs q)
    else \<exists>fs'. add_article fs new_id created updated title url summary opt_content tags
                    related_tickers = Inl (OSError, fs')
          \<and> load_data fs' articles_file
              = (if tears (fs articles_file) then [] else load_data fs articles_file)
          \<and> (\<forall>q. q \<noteq> articles_file \<longrightarrow> fs' q = fs q))
   \<and> (if writable (fs research_file)
    then \<exists>fs' r. add_research fs new_id created updated title content source tags
                    related_tickers = Inr (new_id, fs')
          \<and> load_data fs' research_file = load_data fs research_file @ [r]
          \<and> map_of r ''id'' = Some (JStr new_id)
          \<and> map_of r ''title'' = Some (JStr title)
          \<and> map_of r ''content'' = Some (JStr content)
          \<and> (\<forall>q. q \<noteq> research_file \<longrightarrow> fs' q = fs q)
    else \<exists>fs'. add_research fs new_id created updated title content source tags
                    related_tickers = Inl (OSError, fs')
          \<and> load_data fs' research_file
              = (if tears (fs research_file) then [] else load_data fs research_file)
          \<and> (\<forall>q. q \<noteq> research_file \<longrightarrow> fs' q = fs q))"
proof (intro conjI)
  show "if writable (fs notes_file)
    then \<exists>fs' r. add_note fs new_id created updated title content tags related_tickers
                    = Inr (new_id, fs')
          \<and> load_data fs' notes_file = load_data fs notes_file @ [r]
          \<and> map_of r ''id'' = Some (JStr new_id)
          \<and> map_of r ''title'' = Some (JStr title)
          \<and> map_of r ''content'' = Some (JStr content)
          \<and> (\<forall>q. q \<noteq> notes_file \<longrightarrow> fs' q = fs q)
    else \<exists>fs'. add_note fs new_id created updated title content tags related_tickers
                    = Inl (OSError, fs')
          \<and> load_data fs' notes_file = (if tears (fs notes_file) then [] else load_data fs notes_file)
          \<and> (\<forall>q. q \<noteq> notes_file \<longrightarrow> fs' q = fs q)"
  proof (cases "writable (fs notes_file)")
    case True
    with add_note_writable [of fs new_id created updated title content tags related_tickers]
    show ?thesis by simp
  next
    case False
    with save_data_unwritable [of fs notes_file] show ?thesis
      by (simp add: add_note_def bind_err_def Let_def save_data_def load_data_def)
  qed
  show "if writable (fs articles_file)
    then \<exists>fs' r. add_article fs new_id created updated title url summary opt_content tags
                    related_tickers = Inr (new_id, fs')
          \<and> load_data fs' articles_file = load_data fs articles_file @ [r]
          \<and> map_of r ''id'' = Some (JStr new_id)
          \<and> map_of r ''title'' = Some (JStr title)
          \<and> map_of r ''url'' = Some (JStr url)
          \<and> (\<forall>q. q \<noteq> articles_file \<longrightarrow> fs' q = fs q)
    else \<exists>fs'. add_article fs new_id created updated title url summary opt_content tags
                    related_tickers = Inl (OSError, fs')
          \<and> load_data fs' articles_file
              = (if tears (fs articles_file) then [] else load_data fs articles_file)
          \<and> (\<forall>q. q \<noteq> articles_file \<longrightarrow> fs' q = fs q)"
  proof (cases "writable (fs articles_file)")
    case True
    with add_article_writable [of fs new_id created updated title url summary opt_content tags
        related_tickers]
    show ?thesis by simp
  next
    case False
    with save_data_unwritable [of fs articles_file] show ?thesis
      by (simp add: add_article_def bind_err_def Let_def save_data_def load_data_def)
  qed
  show "if writable (fs research_file)
    then \<exists>fs' r. add_research fs new_id created updated title content source tags
                    related_tickers = Inr (new_id, fs')
          \<and> load_data fs' research_file = load_data fs research_file @ [r]
          \<and> map_of r ''id'' = Some (JStr new_id)
          \<and> map_of r ''title'' = Some (JStr title)
          \<and> map_of r ''content'' = Some (JStr content)
          \<and> (\<forall>q. q \<noteq> research_file \<longrightarrow> fs' q = fs q)
    else \<exists>fs'. add_research fs new_id created updated title content source tags
                    related_tickers = Inl (OSError, fs')
          \<and> load_data fs' research_file
              = (if tears (fs research_file) then [] else load_data fs research_file)
          \<and> (\<forall>q. q \<noteq> research_file \<longrightarrow> fs' q = fs q)"
  proof (cases "writable (fs research_file)")
    case True
    with add_research_writable [of fs new_id created updated title content source tags
        related_tickers]
    show ?thesis by simp
  next
    case False
    with save_data_unwritable [of fs research_file] show ?thesis
      by (simp add: add_research_def bind_err_def Let_def save_data_def load_data_def)
  qed
qed

theorem add_never_validates_witness:
  "writable (empty_kb notes_file)
   \<and> (\<exists>fs' r. add_note empty_kb ''n-1'' ''2024-05-01T12:00:00'' ''2024-05-01T12:00:00'' [] [] None None
                    = Inr (''n-1'', fs')
          \<and> load_data fs' notes_file = load_data empty_kb notes_file @ [r]
          \<and> map_of r ''id'' = Some (JStr ''n-1'')
          \<and> map_of r ''title'' = Some (JStr [])
          \<and> map_of r ''content'' = Some (JStr [])
          \<and> (\<forall>q. q \<noteq> notes_file \<longrightarrow> fs' q = empty_kb q))
   \<and> \<not> writable (read_only empty_kb articles_file)
   \<and> (\<exists>fs'. add_article (read_only empty_kb) ''a-1'' ''2024-05-01T12:00:00''
               ''2024-05-01T12:00:00'' ''Tech Outlook'' ''https://example.com/tech-outlook''
               None None None None = Inl (OSError, fs')
          \<and> load_data fs' articles_file = [])"
proof -
  have w: "writable (empty_kb notes_file)"
    by code_simp
  have u: "\<not> writable (read_only empty_kb articles_file)"
    by code_simp
  from add_never_validates [of empty_kb "''n-1''" "''2024-05-01T12:00:00''"
      "''2024-05-01T12:00:00''" "[]" "[]" None None] w
  have n: "\<exists>fs' r. add_note empty_kb ''n-1'' ''2024-05-01T12:00:00'' ''2024-05-01T12:00:00'' [] [] None None
                    = Inr (''n-1'', fs')
          \<and> load_data fs' notes_file = load_data empty_kb notes_file @ [r]
          \<and> map_of r ''id'' = Some (JStr ''n-1'')
          \<and> map_of r ''title'' = Some (JStr [])
          \<and> map_of r ''content'' = Some (JStr [])
          \<and> (\<forall>q. q \<noteq> notes_file \<longrightarrow> fs' q = empty_kb q)"
    by simp
  have t: "\<not> tears (read_only empty_kb articles_file)"
    by code_simp
  have l: "load_data (read_only empty_kb) articles_file = []"
    by code_simp
  from add_never_validates [of "read_only empty_kb" "''a-1''" "''2024-05-01T12:00:00''"
      "''2024-05-01T12:00:00''" "''Tech Outlook''" "[]" None None
      "''https://example.com/tech-outlook''" None None None] u t l
  obtain fs' where "add_article (read_only empty_kb) ''a-1'' ''2024-05-01T12:00:00''
               ''2024-05-01T12:00:00'' ''Tech Outlook'' ''https://example.com/tech-outlook''
               None None None None = Inl (OSError, fs')"
    and "load_data fs' articles_file = []"
    by auto
  then have a: "\<exists>fs'. add_article (read_only empty_kb) ''a-1'' ''2024-05-01T12:00:00''
               ''2024-05-01T12:00:00'' ''Tech Outlook'' ''https://example.com/tech-outlook''
               None None None None = Inl (OSError, fs')
          \<and> load_data fs' articles_file = []"
    by blast
  from w n u a show ?thesis by (intro conjI)
qed

section \<open>Every record keeps an id\<close>

text \<open>The lookups and the deletion above are stated for stores whose records all have an
  \<^verbatim>\<open>id\<close>. Every operation that writes keeps a store of that kind: an add writes the id it
  drew, an update removes no key, a delete only drops records, and a write that fails
  leaves the file as it was or one that loads as the empty list.\<close>

lemma has_id_updated:
  "has_id item \<Longrightarrow> has_id (AList.update ''updated_at'' (JStr now) (apply_updates updates item))"
  by (simp add: has_id_def update_conv' apply_updates_lookup split: option.splits)

lemma has_id_after_append:
  assumes "\<forall>p. list_all has_id (load_data fs p)"
    and "map_of r ''id'' = Some v"
    and "\<forall>q. load_data fs' q = (if q = f then load_data fs f @ [r] else load_data fs q)"
  shows "\<forall>p. list_all has_id (load_data fs' p)"
  using assms by (simp add: has_id_def)

lemma add_note_has_id:
  assumes "\<forall>p. list_all has_id (load_data fs p)"
    and "add_note fs note_id created updated title content tags related_tickers = Inr (i, fs')"
  shows "\<forall>p. list_all has_id (load_data fs' p)"
proof -
  from add_note_loads [OF assms(2)] obtain r where
    "map_of r ''id'' = Some (JStr note_id)"
    "\<forall>q. load_data fs' q = (if q = notes_file then load_data fs notes_file @ [r] else load_data fs q)"
    by blast
  from has_id_after_append [OF assms(1) this] show ?thesis .
qed

lemma add_article_has_id:
  assumes "\<forall>p. list_all has_id (load_data fs p)"
    and "add_article fs article_id created updated title url summary content tags related_tickers
         = Inr (i, fs')"
  shows "\<forall>p. list_all has_id (load_data fs' p)"
proof -
  from add_article_loads [OF assms(2)] obtain r where
    "map_of r ''id'' = Some (JStr article_id)"
    "\<forall>q. load_data fs' q
       = (if q = articles_file then load_data fs articles_file @ [r] else load_data fs q)"
    by blast
  from has_id_after_append [OF assms(1) this] show ?thesis .
qed

lemma add_research_has_id:
  assumes "\<forall>p. list_all has_id (load_data fs p)"
    and "add_research fs research_id created updated title content source tags related_tickers
         = Inr (i, fs')"
  shows "\<forall>p. list_all has_id (load_data fs' p)"
proof -
  from add_research_loads [OF assms(2)] obtain r where
    "map_of r ''id'' = Some (JStr research_id)"
    "\<forall>q. load_data fs' q
       = (if q = research_file then load_data fs research_file @ [r] else load_data fs q)"
    by blast
  from has_id_after_append [OF assms(1) this] show ?thesis .
qed

lemma update_item_has_id:
  assumes o: "\<forall>p. list_all has_id (load_data fs p)"
  shows "\<forall>p. list_all has_id (load_data (snd (update_item fs now item_id updates item_type)) p)"
proof (cases "fst (update_item fs now item_id updates item_type)")
  case False
  then have "update_item fs now item_id updates item_type
             = (False, snd (update_item fs now item_id updates item_type))"
    by (simp add: prod_eq_iff)
  from update_item_False [OF this] o
  have "list_all has_id (load_data (snd (update_item fs now item_id updates item_type)) q)" for q
    by (metis list.pred_inject(1))
  then show ?thesis by simp
next
  case True
  define fs' where "fs' = snd (update_item fs now item_id updates item_type)"
  from True have "update_item fs now item_id updates item_type = (True, fs')"
    by (simp add: prod_eq_iff fs'_def)
  from update_item_structure [OF this] obtain p before item after where
    l: "load_data fs p = before @ item # after"
    and l': "load_data fs' p
         = before @ AList.update ''updated_at'' (JStr now) (apply_updates updates item) # after"
    and f: "\<forall>q. q \<noteq> p \<longrightarrow> fs' q = fs q"
    by blast
  from o [rule_format, of p] l
  have b: "list_all has_id before" and a: "list_all has_id after" and i: "has_id item"
    by simp_all
  have "list_all has_id (load_data fs' q)" for q
  proof (cases "q = p")
    case True
    with l' b a has_id_updated [OF i] show ?thesis by simp
  next
    case False
    with f have "load_data fs' q = load_data fs q"
      by (simp add: load_data_def)
    with o show ?thesis by simp
  qed
  then show ?thesis
    by (simp add: fs'_def)
qed

lemma delete_item_has_id:
  assumes o: "\<forall>p. list_all has_id (load_data fs p)"
  shows "\<forall>p. list_all has_id (load_data (snd (delete_item fs item_id item_type)) p)"
proof (cases "collection_file item_type")
  case None
  with o show ?thesis by (simp add: delete_item_def)
next
  case (Some f)
  from o have "list_all has_id (load_data fs f)" by simp
  from delete_item_eq [OF Some this, of item_id] o show ?thesis
    by (simp add: load_data_upd load_data_torn has_id_without)
qed

end
